theory Spec2Isabelle
  imports Complex_Main "HOL-Library.Log_Nat"
begin

section \<open>Data model (types.ts)\<close>

text \<open>
  The interfaces of the source become records with the source's field names (\<open>id\<close>, \<open>notes\<close> and
  \<open>type\<close> carry a prime). A \<open>number\<close> field of a stored entity holds a finite
  double, given as the real number it denotes: the invoice and service forms replace an
  unparsable entry by 0 (\<open>parseFloat(value) || 0\<close>), the number inputs of the other forms
  are required ones, a number input yields no infinity, and JSON stores none. What the arithmetic of the source makes of such values (rounding, infinities,
  NaN) is in the section on numbers below. A string is a list of 8-bit characters read
  as code units U+0000..U+00FF, which covers every fixed text of the source. An
  optional field is an \<open>option\<close>.
\<close>

datatype ClientType = Residencial | Comercial

record Client =
  id' :: string
  name :: string
  address :: string
  phone :: string
  email :: string
  createdAt :: string
  type' :: ClientType

record InvoiceItem =
  id' :: string
  description :: string
  quantity :: real
  unitPrice :: real
  isMaintenance :: "bool option"
  isNewEquipment :: "bool option"

datatype InvoiceStatus = Borrador | Enviada | Pagada | Vencida

record Invoice =
  id' :: string
  clientId :: string
  invoiceNumber :: string
  issueDate :: string
  dueDate :: string
  items :: "InvoiceItem list"
  notes' :: "string option"
  status :: InvoiceStatus
  lastMaintenanceDate :: "string option"
  nextMaintenanceDate :: "string option"

record InventoryItem =
  id' :: string
  name :: string
  description :: string
  quantity :: real
  unitPrice :: real

datatype ExpenseCategory = Materiales | Combustible | Herramientas | Marketing | Otro

record Expense =
  id' :: string
  description :: string
  amount :: real
  date :: string
  category :: ExpenseCategory

record ServiceItem =
  inventoryItemId :: string
  quantity :: real

record Service =
  id' :: string
  name :: string
  description :: string
  items :: "ServiceItem list"
  laborCost :: real
  totalPrice :: real


section \<open>The JavaScript runtime: arrays and strings\<close>

text \<open>
  \<open>Array.prototype.find\<close> is \<^const>\<open>List.find\<close>, \<open>filter\<close> and \<open>map\<close> are the list
  functions, \<open>some\<close> is \<^const>\<open>list_ex\<close>, and \<open>reduce(f, init)\<close> is
  \<^const>\<open>foldl\<close>. An absent or false flag is falsy.
\<close>

definition truthy :: "bool option \<Rightarrow> bool" where
  "truthy b = (b = Some True)"

fun startsWith :: "string \<Rightarrow> string \<Rightarrow> bool" where
  "startsWith s [] = True"
| "startsWith [] (p # ps) = False"
| "startsWith (c # cs) (p # ps) = (c = p \<and> startsWith cs ps)"

text \<open>\<open>s.includes(p)\<close>: \<open>p\<close> occurs in \<open>s\<close> as a contiguous run of code units.\<close>

fun includes_str :: "string \<Rightarrow> string \<Rightarrow> bool" where
  "includes_str [] p = (p = [])"
| "includes_str (c # cs) p = (startsWith (c # cs) p \<or> includes_str cs p)"

text \<open>
  \<open>toLowerCase\<close> on the code units U+0000..U+00FF: the letters A-Z and the
  capital letters of Latin-1 (U+00C0..U+00DE without the multiplication sign U+00D7)
  move up by 32, every other code unit stays.
\<close>

definition toLowerCase_char :: "char \<Rightarrow> char" where
  "toLowerCase_char c =
     (let n = (of_char c :: nat)
      in if (65 \<le> n \<and> n \<le> 90) \<or> (192 \<le> n \<and> n \<le> 222 \<and> n \<noteq> 215)
         then char_of (n + 32) else c)"

definition toLowerCase :: "string \<Rightarrow> string" where
  "toLowerCase s = map toLowerCase_char s"

text \<open>\<open>Number.prototype.toString\<close> of a natural number, and \<open>padStart\<close>.\<close>

definition digit_char :: "nat \<Rightarrow> char" where
  "digit_char d = char_of (48 + d)"

fun toString_nat :: "nat \<Rightarrow> string" where
  "toString_nat n =
     (if n < 10 then [digit_char n] else toString_nat (n div 10) @ [digit_char (n mod 10)])"

declare toString_nat.simps [simp del]

definition padStart :: "nat \<Rightarrow> char \<Rightarrow> string \<Rightarrow> string" where
  "padStart targetLength c s = replicate (targetLength - length s) c @ s"


section \<open>The JavaScript runtime: numbers\<close>

text \<open>
  A Number is an IEEE-754 double: a finite value, an infinity or NaN. \<open>to_Number x\<close>
  is the double that an operation with the exact result \<open>x\<close> returns: \<open>x\<close> rounded to
  53 significant bits, to the nearest value and to the even significand on a tie, with
  the exponent held at -1022 for subnormal values, and an infinity when the rounded
  value reaches \<open>2^1024\<close>. The zero of either sign is the one value \<open>Fin 0\<close>; the sums
  below start from \<open>+0\<close> and so never are \<open>-0\<close>.
\<close>

datatype Number = Fin real | PosInf | NegInf | NaN

definition pow2 :: "int \<Rightarrow> real" where
  "pow2 e = (if 0 \<le> e then 2 ^ nat e else 1 / 2 ^ nat (- e))"

text \<open>For \<open>x > 0\<close>, the exponent \<open>e\<close> with \<open>2^e \<le> x < 2^(e+1)\<close>.\<close>

definition ilog2 :: "real \<Rightarrow> int" where
  "ilog2 x = (if 1 \<le> x then bitlen \<lfloor>x\<rfloor> - 1 else - bitlen (\<lceil>1 / x\<rceil> - 1))"

definition round_half_even :: "real \<Rightarrow> int" where
  "round_half_even n =
     (let f = \<lfloor>n\<rfloor>; d = n - of_int f
      in if d < 1 / 2 then f else if 1 / 2 < d then f + 1
         else if even f then f else f + 1)"

definition to_Number :: "real \<Rightarrow> Number" where
  "to_Number x =
     (if x = 0 then Fin 0
      else (let e = max (ilog2 \<bar>x\<bar>) (- 1022);
                u = pow2 (e - 52);
                m = round_half_even (x / u)
            in if 1023 < e then (if 0 < x then PosInf else NegInf)
               else if e = 1023 \<and> \<bar>m\<bar> = 9007199254740992
               then (if 0 < x then PosInf else NegInf)
               else Fin (of_int m * u)))"

text \<open>The operator \<open>+\<close> on Numbers.\<close>

fun js_add :: "Number \<Rightarrow> Number \<Rightarrow> Number" where
  "js_add (Fin x) (Fin y) = to_Number (x + y)"
| "js_add NaN b = NaN"
| "js_add a NaN = NaN"
| "js_add PosInf NegInf = NaN"
| "js_add NegInf PosInf = NaN"
| "js_add PosInf b = PosInf"
| "js_add a PosInf = PosInf"
| "js_add NegInf b = NegInf"
| "js_add a NegInf = NegInf"

text \<open>The operator \<open>*\<close> on two finite values, as the fields of stored entities are.\<close>

definition js_mul :: "real \<Rightarrow> real \<Rightarrow> Number" where
  "js_mul x y = to_Number (x * y)"


section \<open>The JavaScript runtime: Date\<close>

text \<open>
  The \<open>Date\<close> object of ECMAScript, as far as the source uses it. A time value is a
  number of milliseconds since 1970-01-01T00:00:00Z; \<open>None\<close> is the time value NaN of
  an Invalid Date. The functions follow section "Date Objects" of the language
  specification and keep its names. The local time zone is a parameter \<open>tza\<close>, the
  offset of local time from UTC in milliseconds, constant over time (a zone without
  daylight saving, such as UTC itself or Santo Domingo at -4 h).
\<close>

definition msPerDay :: int where
  "msPerDay = 86400000"

definition Day :: "int \<Rightarrow> int" where
  "Day t = t div msPerDay"

definition TimeWithinDay :: "int \<Rightarrow> int" where
  "TimeWithinDay t = t mod msPerDay"

definition DayFromYear :: "int \<Rightarrow> int" where
  "DayFromYear y =
     365 * (y - 1970) + (y - 1969) div 4 - (y - 1901) div 100 + (y - 1601) div 400"

definition InLeapYear :: "int \<Rightarrow> bool" where
  "InLeapYear y =
     (if y mod 400 = 0 then True else if y mod 100 = 0 then False else y mod 4 = 0)"

text \<open>
  \<open>YearFromTime\<close> is the largest year whose first day is not after the day of \<open>t\<close>;
  it is found from an estimate that is off by at most one.
\<close>

definition YearFromDay :: "int \<Rightarrow> int" where
  "YearFromDay d =
     (let y = 1970 + (400 * d) div 146097
      in if DayFromYear (y + 1) \<le> d then y + 1
         else if DayFromYear y \<le> d then y else y - 1)"

definition YearFromTime :: "int \<Rightarrow> int" where
  "YearFromTime t = YearFromDay (Day t)"

definition DayWithinYear :: "int \<Rightarrow> int" where
  "DayWithinYear t = Day t - DayFromYear (YearFromTime t)"

definition DaysBeforeMonth :: "int \<Rightarrow> bool \<Rightarrow> int" where
  "DaysBeforeMonth mn leap =
     (let l = (if leap then 1 else 0)
      in if mn = 0 then 0 else if mn = 1 then 31 else if mn = 2 then 59 + l
         else if mn = 3 then 90 + l else if mn = 4 then 120 + l
         else if mn = 5 then 151 + l else if mn = 6 then 181 + l
         else if mn = 7 then 212 + l else if mn = 8 then 243 + l
         else if mn = 9 then 273 + l else if mn = 10 then 304 + l else 334 + l)"

definition MonthFromTime :: "int \<Rightarrow> int" where
  "MonthFromTime t =
     (let d = DayWithinYear t; l = (if InLeapYear (YearFromTime t) then 1 else 0)
      in if d < 31 then 0 else if d < 59 + l then 1 else if d < 90 + l then 2
         else if d < 120 + l then 3 else if d < 151 + l then 4
         else if d < 181 + l then 5 else if d < 212 + l then 6
         else if d < 243 + l then 7 else if d < 273 + l then 8
         else if d < 304 + l then 9 else if d < 334 + l then 10 else 11)"

definition DateFromTime :: "int \<Rightarrow> int" where
  "DateFromTime t =
     DayWithinYear t - DaysBeforeMonth (MonthFromTime t) (InLeapYear (YearFromTime t)) + 1"

definition MakeDay :: "int \<Rightarrow> int \<Rightarrow> int \<Rightarrow> int" where
  "MakeDay year month dt =
     (let ym = year + month div 12; mn = month mod 12
      in DayFromYear ym + DaysBeforeMonth mn (InLeapYear ym) + dt - 1)"

definition MakeDate :: "int \<Rightarrow> int \<Rightarrow> int" where
  "MakeDate day time = day * msPerDay + time"

definition TimeClip :: "int \<Rightarrow> int option" where
  "TimeClip t = (if \<bar>t\<bar> > 8640000000000000 then None else Some t)"

text \<open>The length of month \<open>mn\<close> (0 is January), to say which day numbers a month has.\<close>

definition DaysInMonth :: "int \<Rightarrow> bool \<Rightarrow> int" where
  "DaysInMonth mn leap =
     (if mn = 1 then (if leap then 29 else 28)
      else if mn = 3 then 30 else if mn = 5 then 30 else if mn = 8 then 30
      else if mn = 10 then 30 else 31)"

text \<open>
  \<open>new Date(s)\<close> for the date-only form \<open>YYYY-MM-DD\<close>, the form that a date input
  yields and that the source itself writes: the time value of midnight UTC of that
  day. A day number up to 31 is accepted in every month and rolls over. Every other
  string (the empty one too) is read as an Invalid Date here; that leaves out the other
  forms the language accepts, of which the source can write only the signed six-digit
  year of \<open>toISOString\<close> for a year beyond 9999.
\<close>

definition isDigit :: "char \<Rightarrow> bool" where
  "isDigit c = (let n = (of_char c :: nat) in 48 \<le> n \<and> n \<le> 57)"

definition digits_value :: "string \<Rightarrow> int" where
  "digits_value s = foldl (\<lambda>v c. 10 * v + (int (of_char c) - 48)) 0 s"

definition Date_new :: "string \<Rightarrow> int option" where
  "Date_new s =
     (if length s = 10 \<and> list_all isDigit (take 4 s) \<and> s ! 4 = CHR ''-''
         \<and> list_all isDigit (take 2 (drop 5 s)) \<and> s ! 7 = CHR ''-''
         \<and> list_all isDigit (drop 8 s)
      then (let y = digits_value (take 4 s);
                m = digits_value (take 2 (drop 5 s));
                d = digits_value (drop 8 s)
            in if 1 \<le> m \<and> m \<le> 12 \<and> 1 \<le> d \<and> d \<le> 31
               then TimeClip (MakeDate (MakeDay y (m - 1) d) 0) else None)
      else None)"

text \<open>The getters and the setter read and write local time.\<close>

definition getMonth :: "int \<Rightarrow> int option \<Rightarrow> int option" where
  "getMonth tza d = map_option (\<lambda>t. MonthFromTime (t + tza)) d"

definition getFullYear :: "int \<Rightarrow> int option \<Rightarrow> int option" where
  "getFullYear tza d = map_option (\<lambda>t. YearFromTime (t + tza)) d"

definition setMonth :: "int \<Rightarrow> int option \<Rightarrow> int option \<Rightarrow> int option" where
  "setMonth tza d month =
     (case d of
        None \<Rightarrow> None
      | Some tv \<Rightarrow>
          (case month of
             None \<Rightarrow> None
           | Some m \<Rightarrow>
               (let t = tv + tza;
                    newDate = MakeDate (MakeDay (YearFromTime t) m (DateFromTime t))
                                (TimeWithinDay t)
                in TimeClip (newDate - tza))))"

text \<open>
  \<open>toISOString\<close> writes the UTC fields; on an Invalid Date it throws a RangeError,
  which is \<open>None\<close> here.
\<close>

definition pad_nat :: "nat \<Rightarrow> int \<Rightarrow> string" where
  "pad_nat w n = padStart w (CHR ''0'') (toString_nat (nat n))"

definition year_string :: "int \<Rightarrow> string" where
  "year_string y =
     (if 0 \<le> y \<and> y \<le> 9999 then pad_nat 4 y
      else (if y < 0 then ''-'' else ''+'') @ pad_nat 6 \<bar>y\<bar>)"

definition toISOString :: "int option \<Rightarrow> string option" where
  "toISOString d =
     (case d of
        None \<Rightarrow> None
      | Some t \<Rightarrow>
          Some (year_string (YearFromTime t) @ ''-'' @ pad_nat 2 (MonthFromTime t + 1) @ ''-''
                @ pad_nat 2 (DateFromTime t) @ ''T''
                @ pad_nat 2 ((t div 3600000) mod 24) @ '':''
                @ pad_nat 2 ((t div 60000) mod 60) @ '':''
                @ pad_nat 2 ((t div 1000) mod 60) @ ''.''
                @ pad_nat 3 (t mod 1000) @ ''Z''))"

text \<open>\<open>s.split('T')[0]\<close>: the part of \<open>s\<close> before its first \<open>T\<close>.\<close>

definition split_T_0 :: "string \<Rightarrow> string" where
  "split_T_0 s = takeWhile (\<lambda>c. c \<noteq> CHR ''T'') s"

text \<open>
  Relational and strict equality operators on numbers: anything compared with NaN is
  false.
\<close>

definition num_le :: "int option \<Rightarrow> int option \<Rightarrow> bool" where
  "num_le a b = (case a of None \<Rightarrow> False | Some x \<Rightarrow> (case b of None \<Rightarrow> False | Some y \<Rightarrow> x \<le> y))"

definition num_ge :: "int option \<Rightarrow> int option \<Rightarrow> bool" where
  "num_ge a b = (case a of None \<Rightarrow> False | Some x \<Rightarrow> (case b of None \<Rightarrow> False | Some y \<Rightarrow> x \<ge> y))"

definition num_eq :: "int option \<Rightarrow> int option \<Rightarrow> bool" where
  "num_eq a b = (case a of None \<Rightarrow> False | Some x \<Rightarrow> (case b of None \<Rightarrow> False | Some y \<Rightarrow> x = y))"


section \<open>Invoice totals\<close>

text \<open>
  \<open>formData.items.reduce((sum, item) => sum + (item.quantity * item.unitPrice), 0)\<close>
  of \<open>InvoiceForm\<close>, in the arithmetic of doubles; the form shows this one value on
  its Subtotal line and on its Total line. \<open>InvoicePreview\<close> computes \<open>total\<close> by the
  same reduce and shows it twice as well.
\<close>

definition subtotal :: "InvoiceItem list \<Rightarrow> Number" where
  "subtotal its =
     foldl (\<lambda>sum item.
              js_add sum (js_mul (InvoiceItem.quantity item) (InvoiceItem.unitPrice item)))
       (Fin 0) its"




section \<open>InvoiceForm\<close>

text \<open>
  \<open>handleAddService\<close>: the service picker appends one line item made from a stored
  service. \<open>generateId()\<close> is random; its result is the parameter \<open>newId\<close>.
\<close>

definition handleAddService :: "string \<Rightarrow> Invoice \<Rightarrow> Service \<Rightarrow> Invoice" where
  "handleAddService newId formData service =
     (let newItem = \<lparr> InvoiceItem.id' = newId,
                       InvoiceItem.description = Service.name service,
                       InvoiceItem.quantity = 1,
                       InvoiceItem.unitPrice = Service.totalPrice service,
                       isMaintenance =
                         Some (includes_str (toLowerCase (Service.name service)) ''mantenimiento''),
                       isNewEquipment = Some False \<rparr>
      in formData\<lparr> Invoice.items := Invoice.items formData @ [newItem] \<rparr>)"

text \<open>The two fixed sentences of \<open>handleSubmit\<close>, and the blank line between notes.\<close>

definition warrantyText :: string where
  "warrantyText =
     ''Garant'' @ [CHR 0xED] @ ''a de un a'' @ [CHR 0xF1] @ ''o. La garant'' @ [CHR 0xED]
     @ ''a solo cubre da'' @ [CHR 0xF1]
     @ ''os por naturaleza del equipo, no provocados por cortocircuitos.''"

definition maintenanceText :: "nat \<Rightarrow> string" where
  "maintenanceText maintenanceMonths =
     ''Recomendaci'' @ [CHR 0xF3] @ ''n: Realizar el primer mantenimiento preventivo en ''
     @ toString_nat maintenanceMonths @ '' meses para asegurar el '' @ [CHR 0xF3]
     @ ''ptimo funcionamiento y la validez de la garant'' @ [CHR 0xED] @ ''a.''"

definition blank_line :: string where
  "blank_line = [CHR 0x0A, CHR 0x0A]"

text \<open>\<open>notes ? `${notes}\n\n${text}` : text\<close>: the empty string is falsy.\<close>

definition append_note :: "string \<Rightarrow> string \<Rightarrow> string" where
  "append_note notes text = (if notes = [] then text else notes @ blank_line @ text)"

text \<open>
  \<open>handleSubmit\<close> of the invoice form. It either stops with the alert (and never calls
  \<open>onSave\<close>), or is left by the RangeError that \<open>toISOString\<close> throws on an Invalid
  Date, or calls \<open>onSave\<close> with the derived invoice, which is the \<open>Inr\<close> result.
  \<open>invoice\<close> is the prop of the form: the invoice being edited, or \<open>None\<close> for a new
  one. \<open>formData\<close> starts as that invoice, so it has the type of an invoice; its \<open>id\<close>
  and \<open>invoiceNumber\<close> are overwritten from the prop.
\<close>

datatype SubmitError = Alert string | RangeError

definition derive_nextMaintenanceDate :: "int \<Rightarrow> Invoice \<Rightarrow> SubmitError + string option" where
  "derive_nextMaintenanceDate tza finalData =
     (let hasMaintenance =
            list_ex (\<lambda>item. truthy (isMaintenance item)) (Invoice.items finalData)
      in if hasMaintenance
         then (let issue = Date_new (issueDate finalData);
                   issue = setMonth tza issue (map_option (\<lambda>m. m + 6) (getMonth tza issue))
               in case toISOString issue of
                    None \<Rightarrow> Inl RangeError
                  | Some isoString \<Rightarrow> Inr (Some (split_T_0 isoString)))
         else Inr None)"

definition derive_notes :: "Client \<Rightarrow> Invoice \<Rightarrow> string" where
  "derive_notes client finalData =
     (let notes = (case notes' finalData of None \<Rightarrow> [] | Some n \<Rightarrow> n);
          hasNewEquipment =
            list_ex (\<lambda>item. truthy (isNewEquipment item)) (Invoice.items finalData);
          notes = (if hasNewEquipment \<and> \<not> includes_str notes warrantyText
                   then append_note notes warrantyText else notes)
      in if hasNewEquipment
         then (let maintenanceMonths = (if type' client = Comercial then 3 else 6)
               in if \<not> includes_str notes (maintenanceText maintenanceMonths)
                  then append_note notes (maintenanceText maintenanceMonths) else notes)
         else notes)"

definition handleSubmit ::
  "int \<Rightarrow> Client list \<Rightarrow> Invoice option \<Rightarrow> Invoice \<Rightarrow> SubmitError + Invoice" where
  "handleSubmit tza clients invoice formData =
     (case find (\<lambda>c. Client.id' c = clientId formData) clients of
        None \<Rightarrow> Inl (Alert ''Por favor, seleccione un cliente.'')
      | Some client \<Rightarrow>
          (case derive_nextMaintenanceDate tza formData of
             Inl e \<Rightarrow> Inl e
           | Inr nmd \<Rightarrow>
               Inr (formData\<lparr> nextMaintenanceDate := nmd,
                              notes' := Some (derive_notes client formData),
                              Invoice.id' := (case invoice of None \<Rightarrow> [] | Some i \<Rightarrow> Invoice.id' i),
                              invoiceNumber :=
                                (case invoice of None \<Rightarrow> [] | Some i \<Rightarrow> invoiceNumber i) \<rparr>)))"

text \<open>
  \<open>handleSubmit\<close> with the computation of the next maintenance date, which is all its
  use of \<open>Date\<close>, as a parameter: what is proved of it holds whatever the date library
  makes of the issue date.
\<close>

definition handleSubmit_with ::
  "(Invoice \<Rightarrow> SubmitError + string option) \<Rightarrow> Client list \<Rightarrow> Invoice option \<Rightarrow> Invoice
     \<Rightarrow> SubmitError + Invoice" where
  "handleSubmit_with deriveDate clients invoice formData =
     (case find (\<lambda>c. Client.id' c = clientId formData) clients of
        None \<Rightarrow> Inl (Alert ''Por favor, seleccione un cliente.'')
      | Some client \<Rightarrow>
          (case deriveDate formData of
             Inl e \<Rightarrow> Inl e
           | Inr nmd \<Rightarrow>
               Inr (formData\<lparr> nextMaintenanceDate := nmd,
                              notes' := Some (derive_notes client formData),
                              Invoice.id' := (case invoice of None \<Rightarrow> [] | Some i \<Rightarrow> Invoice.id' i),
                              invoiceNumber :=
                                (case invoice of None \<Rightarrow> [] | Some i \<Rightarrow> invoiceNumber i) \<rparr>)))"


section \<open>InvoicesPage\<close>

text \<open>
  \<open>handleSaveInvoice\<close> is the \<open>onSave\<close> of the form. \<open>selectedInvoice\<close> is the page's
  state, which is also the form's \<open>invoice\<close> prop; \<open>newId\<close> stands for \<open>generateId()\<close>.
\<close>

definition handleSaveInvoice ::
  "string \<Rightarrow> Invoice list \<Rightarrow> Invoice option \<Rightarrow> Invoice \<Rightarrow> Invoice list" where
  "handleSaveInvoice newId invoices selectedInvoice invoice =
     (case selectedInvoice of
        Some _ \<Rightarrow> map (\<lambda>i. if Invoice.id' i = Invoice.id' invoice then invoice else i) invoices
      | None \<Rightarrow>
          (let newInvoiceNumber =
                 ''INV-'' @ padStart 4 (CHR ''0'') (toString_nat (length invoices + 1))
           in invoices @ [invoice\<lparr> Invoice.id' := newId, invoiceNumber := newInvoiceNumber \<rparr>]))"

text \<open>
  Submitting the form on the invoices page: the form's \<open>handleSubmit\<close> with
  \<open>handleSaveInvoice\<close> as its \<open>onSave\<close>. The result is the message shown to the user or
  the error thrown (if any), and the invoice collection afterwards.
\<close>

definition submitInvoiceForm ::
  "int \<Rightarrow> string \<Rightarrow> Client list \<Rightarrow> Invoice list \<Rightarrow> Invoice option \<Rightarrow> Invoice
     \<Rightarrow> SubmitError option \<times> Invoice list" where
  "submitInvoiceForm tza newId clients invoices selectedInvoice formData =
     (case handleSubmit tza clients selectedInvoice formData of
        Inl e \<Rightarrow> (Some e, invoices)
      | Inr invoice \<Rightarrow> (None, handleSaveInvoice newId invoices selectedInvoice invoice))"


section \<open>DashboardPage\<close>

text \<open>
  \<open>now\<close> is the time value of \<open>new Date()\<close>. \<open>.map(find).filter(c => !!c)\<close> keeps the
  clients that were found, in order.
\<close>

definition maintenance_due :: "int \<Rightarrow> Invoice \<Rightarrow> bool" where
  "maintenance_due now invoice =
     (let fifteenDaysFromNow = now + 15 * 24 * 60 * 60 * 1000
      in case nextMaintenanceDate invoice of
           None \<Rightarrow> False
         | Some s \<Rightarrow> s \<noteq> [] \<and> num_le (Date_new s) (Some fifteenDaysFromNow)
                      \<and> num_ge (Date_new s) (Some now))"

definition upcomingMaintenance :: "int \<Rightarrow> Invoice list \<Rightarrow> Client list \<Rightarrow> Client list" where
  "upcomingMaintenance now invoices clients =
     foldl (\<lambda>unique item.
              if find (\<lambda>u. Client.id' u = Client.id' item) unique \<noteq> None
              then unique else unique @ [item]) []
       (List.map_filter (\<lambda>c. c)
          (map (\<lambda>invoice. find (\<lambda>c. Client.id' c = clientId invoice) clients)
             (filter (maintenance_due now) invoices)))"

definition in_current_month :: "int \<Rightarrow> int \<Rightarrow> string \<Rightarrow> bool" where
  "in_current_month tza now s =
     (let currentMonth = getMonth tza (Some now);
          currentYear = getFullYear tza (Some now);
          d = Date_new s
      in num_eq (getMonth tza d) currentMonth \<and> num_eq (getFullYear tza d) currentYear)"

text \<open>
  The two reduces of \<open>monthlyData\<close> are taken here on the exact values: they are the sums
  of the source wherever its additions round nothing, as on the integer amounts of the
  examples. Which invoices and expenses are summed is decided by \<open>in_current_month\<close>
  alone.
\<close>

record MonthlyData =
  income :: real
  totalExpenses :: real

definition monthlyData :: "int \<Rightarrow> int \<Rightarrow> Invoice list \<Rightarrow> Expense list \<Rightarrow> MonthlyData" where
  "monthlyData tza now invoices expenses =
     \<lparr> income =
         foldl (\<lambda>sum invoice. sum +
                  foldl (\<lambda>itemSum item.
                           itemSum + InvoiceItem.quantity item * InvoiceItem.unitPrice item)
                    0 (Invoice.items invoice)) 0
           (filter (\<lambda>invoice. in_current_month tza now (issueDate invoice))
              (filter (\<lambda>invoice. status invoice = Pagada) invoices)),
       totalExpenses =
         foldl (\<lambda>sum exp. sum + amount exp) 0
           (filter (\<lambda>exp. in_current_month tza now (date exp)) expenses) \<rparr>"

definition monthlyProfit :: "int \<Rightarrow> int \<Rightarrow> Invoice list \<Rightarrow> Expense list \<Rightarrow> real" where
  "monthlyProfit tza now invoices expenses =
     income (monthlyData tza now invoices expenses)
     - totalExpenses (monthlyData tza now invoices expenses)"


section \<open>ServiceForm\<close>

definition handleItemQuantityChange :: "Service \<Rightarrow> string \<Rightarrow> real \<Rightarrow> Service" where
  "handleItemQuantityChange formData itemId qty =
     (let newItems =
        (case find (\<lambda>i. inventoryItemId i = itemId) (Service.items formData) of
           Some existingItem \<Rightarrow>
             if qty > 0
             then map (\<lambda>i. if inventoryItemId i = itemId
                            then i\<lparr> ServiceItem.quantity := qty \<rparr> else i)
                    (Service.items formData)
             else filter (\<lambda>i. inventoryItemId i \<noteq> itemId) (Service.items formData)
         | None \<Rightarrow>
             if qty > 0
             then Service.items formData
                  @ [\<lparr> inventoryItemId = itemId, ServiceItem.quantity = qty \<rparr>]
             else Service.items formData)
      in formData\<lparr> Service.items := newItems \<rparr>)"

definition materialsCost :: "InventoryItem list \<Rightarrow> ServiceItem list \<Rightarrow> Number" where
  "materialsCost inventory its =
     foldl (\<lambda>total serviceItem.
              js_add total
                (case find (\<lambda>i. InventoryItem.id' i = inventoryItemId serviceItem) inventory of
                   Some inventoryItem \<Rightarrow>
                     js_mul (InventoryItem.unitPrice inventoryItem)
                       (ServiceItem.quantity serviceItem)
                 | None \<Rightarrow> Fin 0)) (Fin 0) its"




section \<open>Example data\<close>

definition ex_client :: "ClientType \<Rightarrow> Client" where
  "ex_client t = \<lparr> Client.id' = ''c1'', Client.name = ''Ana'', address = ''Calle 1'',
                    phone = ''809'', email = ''ana@example.com'', createdAt = ''2024-01-01'',
                    type' = t \<rparr>"

definition ex_item :: "bool \<Rightarrow> bool \<Rightarrow> real \<Rightarrow> real \<Rightarrow> InvoiceItem" where
  "ex_item maint neweq q p =
     \<lparr> InvoiceItem.id' = ''i1'', InvoiceItem.description = ''Split 12000 BTU'',
       InvoiceItem.quantity = q, InvoiceItem.unitPrice = p,
       isMaintenance = Some maint, isNewEquipment = Some neweq \<rparr>"

definition ex_draft :: "string \<Rightarrow> InvoiceItem list \<Rightarrow> InvoiceStatus \<Rightarrow> string \<Rightarrow> Invoice" where
  "ex_draft d its st n =
     \<lparr> Invoice.id' = [], clientId = ''c1'', invoiceNumber = [], issueDate = d,
       dueDate = ''2024-04-01'', Invoice.items = its, notes' = Some n, status = st,
       lastMaintenanceDate = None, nextMaintenanceDate = None \<rparr>"



definition ex_service :: "string \<Rightarrow> ServiceItem list \<Rightarrow> real \<Rightarrow> Service" where
  "ex_service n its labor =
     \<lparr> Service.id' = ''s1'', Service.name = n, Service.description = [],
       Service.items = its, laborCost = labor, totalPrice = 0 \<rparr>"

definition ex_line :: "string \<Rightarrow> real \<Rightarrow> ServiceItem" where
  "ex_line k q = \<lparr> inventoryItemId = k, ServiceItem.quantity = q \<rparr>"


definition ex_stored :: "string \<Rightarrow> string \<Rightarrow> Invoice" where
  "ex_stored i n = (ex_draft ''2024-01-10'' [ex_item False False 1 100] Pagada [])
                     \<lparr> Invoice.id' := i, invoiceNumber := n \<rparr>"


definition ex_due :: "string \<Rightarrow> string \<Rightarrow> Invoice" where
  "ex_due cid nmd =
     (ex_draft ''2023-09-01'' [ex_item True False 1 100] Pagada [])
       \<lparr> clientId := cid, nextMaintenanceDate := Some nmd \<rparr>"

definition ex_client2 :: Client where
  "ex_client2 = (ex_client Comercial)\<lparr> Client.id' := ''c2'', Client.name := ''Hotel Sol'' \<rparr>"

definition ex_paid :: "string \<Rightarrow> InvoiceStatus \<Rightarrow> real \<Rightarrow> Invoice" where
  "ex_paid d st p = ex_draft d [ex_item False False 1 p] st []"

definition ex_expense :: "string \<Rightarrow> real \<Rightarrow> Expense" where
  "ex_expense d a = \<lparr> Expense.id' = ''e1'', Expense.description = ''Gasolina'', amount = a,
                       date = d, category = Combustible \<rparr>"


section \<open>Helper lemmas\<close>

lemma foldl_add_sum_list:
  fixes f :: "'a \<Rightarrow> real"
  shows "foldl (\<lambda>s x. s + f x) a xs = a + sum_list (map f xs)"
  by (induction xs arbitrary: a) simp_all


lemma startsWith_iff: "startsWith s p \<longleftrightarrow> (\<exists>b. s = p @ b)"
  by (induction s p rule: startsWith.induct) auto

lemma includes_str_iff: "includes_str s p \<longleftrightarrow> (\<exists>a b. s = a @ p @ b)"
proof (induction s)
  case Nil
  then show ?case by auto
next
  case (Cons c cs)
  show ?case
  proof
    assume "includes_str (c # cs) p"
    then consider "startsWith (c # cs) p" | "includes_str cs p" by auto
    then show "\<exists>a b. c # cs = a @ p @ b"
    proof cases
      case 1
      then obtain b where "c # cs = p @ b" by (auto simp: startsWith_iff)
      then have "c # cs = [] @ p @ b" by simp
      then show ?thesis by blast
    next
      case 2
      then obtain a b where "cs = a @ p @ b" using Cons.IH by blast
      then have "c # cs = (c # a) @ p @ b" by simp
      then show ?thesis by blast
    qed
  next
    assume "\<exists>a b. c # cs = a @ p @ b"
    then obtain a b where ab: "c # cs = a @ p @ b" by blast
    show "includes_str (c # cs) p"
    proof (cases a)
      case Nil
      with ab have "startsWith (c # cs) p" by (auto simp: startsWith_iff)
      then show ?thesis by simp
    next
      case (Cons x a')
      with ab have "cs = a' @ p @ b" by simp
      then have "includes_str cs p" using Cons.IH by blast
      then show ?thesis by simp
    qed
  qed
qed

lemma includes_str_suffix: "includes_str (a @ p) p"
proof -
  have "a @ p = a @ p @ []" by simp
  then show ?thesis unfolding includes_str_iff by blast
qed

lemma includes_str_self: "includes_str p p"
  using includes_str_suffix [of "[]" p] by simp

lemma includes_str_extend: "includes_str s p \<Longrightarrow> includes_str (s @ t) p"
proof -
  assume "includes_str s p"
  then obtain a b where "s = a @ p @ b" unfolding includes_str_iff by blast
  then have "s @ t = a @ p @ (b @ t)" by simp
  then show ?thesis unfolding includes_str_iff by blast
qed

lemma append_note_includes_new: "includes_str (append_note n t) t"
  using includes_str_suffix [of "n @ blank_line" t]
  by (simp add: append_note_def includes_str_self)

lemma append_note_includes_old: "includes_str n p \<Longrightarrow> includes_str (append_note n t) p"
  using includes_str_extend [of n p "blank_line @ t"]
  by (cases n) (auto simp: append_note_def includes_str_iff)

lemma derive_notes_shape:
  assumes "old = (case notes' formData of None \<Rightarrow> [] | Some n \<Rightarrow> n)"
    and "hasNew = list_ex (\<lambda>item. truthy (isNewEquipment item)) (Invoice.items formData)"
    and "m = (if type' client = Comercial then 3 else 6)"
    and "w = (if hasNew \<and> \<not> includes_str old warrantyText
              then (if old = [] then [] else blank_line) @ warrantyText else [])"
    and "r = (if hasNew \<and> \<not> includes_str (old @ w) (maintenanceText m)
              then (if old @ w = [] then [] else blank_line) @ maintenanceText m else [])"
  shows "derive_notes client formData = old @ w @ r"
  using assms by (simp add: derive_notes_def Let_def append_note_def)

lemma derive_notes_contains:
  assumes "list_ex (\<lambda>item. truthy (isNewEquipment item)) (Invoice.items formData)"
    and "m = (if type' client = Comercial then 3 else 6)"
  shows "includes_str (derive_notes client formData) warrantyText
       \<and> includes_str (derive_notes client formData) (maintenanceText m)"
  using assms
  by (auto simp: derive_notes_def Let_def append_note_includes_new append_note_includes_old)

lemma derive_notes_idem:
  assumes "Invoice.items saved = Invoice.items formData"
    and "notes' saved = Some (derive_notes client formData)"
  shows "derive_notes client saved = derive_notes client formData"
proof (cases "list_ex (\<lambda>item. truthy (isNewEquipment item)) (Invoice.items formData)")
  case True
  then have "includes_str (derive_notes client formData) warrantyText"
    and "includes_str (derive_notes client formData) (maintenanceText (if type' client = Comercial then 3 else 6))"
    using derive_notes_contains [of formData _ client] by auto
  with True assms show ?thesis
    by (simp add: derive_notes_def [of client saved] Let_def)
next
  case False
  with assms show ?thesis
    by (simp add: derive_notes_def Let_def)
qed

lemma handleSubmit_Inr:
  assumes "handleSubmit tza clients invoice formData = Inr saved"
  obtains client nmd where
    "find (\<lambda>c. Client.id' c = clientId formData) clients = Some client"
    "derive_nextMaintenanceDate tza formData = Inr nmd"
    "saved = formData\<lparr> nextMaintenanceDate := nmd,
                       notes' := Some (derive_notes client formData),
                       Invoice.id' := (case invoice of None \<Rightarrow> [] | Some i \<Rightarrow> Invoice.id' i),
                       invoiceNumber := (case invoice of None \<Rightarrow> [] | Some i \<Rightarrow> invoiceNumber i) \<rparr>"
  using assms by (auto simp: handleSubmit_def split: option.splits sum.splits)

lemma derive_nextMaintenanceDate_cong:
  "Invoice.items a = Invoice.items b \<Longrightarrow> issueDate a = issueDate b
   \<Longrightarrow> derive_nextMaintenanceDate tza a = derive_nextMaintenanceDate tza b"
  by (simp add: derive_nextMaintenanceDate_def)

lemma handleSubmit_resave:
  assumes "handleSubmit tza clients invoice formData = Inr saved"
  shows "handleSubmit tza clients (Some saved) saved = Inr saved"
proof -
  from assms obtain client nmd where
    c: "find (\<lambda>c. Client.id' c = clientId formData) clients = Some client"
    and d: "derive_nextMaintenanceDate tza formData = Inr nmd"
    and s: "saved = formData\<lparr> nextMaintenanceDate := nmd,
                       notes' := Some (derive_notes client formData),
                       Invoice.id' := (case invoice of None \<Rightarrow> [] | Some i \<Rightarrow> Invoice.id' i),
                       invoiceNumber := (case invoice of None \<Rightarrow> [] | Some i \<Rightarrow> invoiceNumber i) \<rparr>"
    by (rule handleSubmit_Inr)
  have "derive_nextMaintenanceDate tza saved = derive_nextMaintenanceDate tza formData"
    using s by (intro derive_nextMaintenanceDate_cong) simp_all
  then have d': "derive_nextMaintenanceDate tza saved = Inr nmd"
    using d by simp
  have n': "derive_notes client saved = derive_notes client formData"
    using s by (intro derive_notes_idem) simp_all
  have c': "find (\<lambda>c. Client.id' c = clientId saved) clients = Some client"
    using c s by simp
  show ?thesis
    using c' d' n' s by (simp add: handleSubmit_def)
qed


lemma find_None_filter:
  "find P xs = None \<Longrightarrow> filter (\<lambda>x. \<not> P x) xs = xs"
  by (induction xs) (auto split: if_splits)

lemma quantity_zero_removes:
  "Service.items (handleItemQuantityChange formData itemId 0)
     = filter (\<lambda>i. inventoryItemId i \<noteq> itemId) (Service.items formData)"
  by (simp add: handleItemQuantityChange_def find_None_filter split: option.splits)

lemma quantity_new_line:
  assumes "itemId \<notin> inventoryItemId ` set (Service.items formData)"
  shows "Service.items (handleItemQuantityChange formData itemId qty)
     = (if qty > 0
        then Service.items formData @ [\<lparr> inventoryItemId = itemId, ServiceItem.quantity = qty \<rparr>]
        else Service.items formData)"
proof -
  from assms have "find (\<lambda>i. inventoryItemId i = itemId) (Service.items formData) = None"
    by (auto simp: find_None_iff)
  then show ?thesis by (simp add: handleItemQuantityChange_def)
qed

lemma map_update_ids:
  "map inventoryItemId
     (map (\<lambda>i. if inventoryItemId i = k then i\<lparr> ServiceItem.quantity := q \<rparr> else i) its)
   = map inventoryItemId its"
  by (induction its) auto

lemma edit_keeps_invariant:
  assumes "distinct (map inventoryItemId (Service.items formData))"
    and "\<forall>i\<in>set (Service.items formData). ServiceItem.quantity i > 0"
  shows "distinct (map inventoryItemId (Service.items (handleItemQuantityChange formData itemId qty)))
       \<and> (\<forall>i\<in>set (Service.items (handleItemQuantityChange formData itemId qty)).
             ServiceItem.quantity i > 0)"
proof (cases "find (\<lambda>i. inventoryItemId i = itemId) (Service.items formData)")
  case None
  then have "itemId \<notin> inventoryItemId ` set (Service.items formData)"
    by (auto simp: find_None_iff)
  with assms None show ?thesis
    by (auto simp: handleItemQuantityChange_def)
next
  case (Some existingItem)
  show ?thesis
  proof (cases "qty > 0")
    case True
    with Some assms show ?thesis
      by (auto simp: handleItemQuantityChange_def map_update_ids simp del: map_map)
  next
    case False
    with Some assms show ?thesis
      by (auto simp: handleItemQuantityChange_def distinct_map_filter)
  qed
qed

lemma edits_keep_invariant:
  assumes "distinct (map inventoryItemId (Service.items formData))"
    and "\<forall>i\<in>set (Service.items formData). ServiceItem.quantity i > 0"
  shows "distinct (map inventoryItemId (Service.items
            (foldl (\<lambda>fd (itemId, qty). handleItemQuantityChange fd itemId qty) formData edits)))
       \<and> (\<forall>i\<in>set (Service.items
            (foldl (\<lambda>fd (itemId, qty). handleItemQuantityChange fd itemId qty) formData edits)).
             ServiceItem.quantity i > 0)"
  using assms
proof (induction edits arbitrary: formData)
  case Nil
  then show ?case by simp
next
  case (Cons e edits)
  obtain itemId qty where e: "e = (itemId, qty)" by (cases e)
  have "distinct (map inventoryItemId (Service.items (handleItemQuantityChange formData itemId qty)))
       \<and> (\<forall>i\<in>set (Service.items (handleItemQuantityChange formData itemId qty)).
             ServiceItem.quantity i > 0)"
    using Cons.prems by (rule edit_keeps_invariant)
  then show ?case
    using Cons.IH [of "handleItemQuantityChange formData itemId qty"] e by simp
qed


lemma handleSubmit_unresolved:
  "find (\<lambda>c. Client.id' c = clientId formData) clients = None
   \<Longrightarrow> handleSubmit tza clients invoice formData = Inl (Alert ''Por favor, seleccione un cliente.'')"
  by (simp add: handleSubmit_def)

lemma handleSubmit_items:
  "handleSubmit tza clients invoice formData = Inr saved
   \<Longrightarrow> Invoice.items saved = Invoice.items formData \<and> clientId saved = clientId formData
     \<and> issueDate saved = issueDate formData \<and> dueDate saved = dueDate formData
     \<and> status saved = status formData"
  by (erule handleSubmit_Inr) simp

lemma handleSubmit_no_maintenance:
  assumes "find (\<lambda>c. Client.id' c = clientId formData) clients = Some client"
    and "\<not> list_ex (\<lambda>item. truthy (isMaintenance item)) (Invoice.items formData)"
  shows "\<exists>saved. handleSubmit tza clients invoice formData = Inr saved
            \<and> nextMaintenanceDate saved = None"
  using assms by (simp add: handleSubmit_def derive_nextMaintenanceDate_def)

lemma toString_nat_1: "n < 10 \<Longrightarrow> toString_nat n = [digit_char n]"
  by (subst toString_nat.simps) simp

lemma toString_nat_2:
  "10 \<le> n \<Longrightarrow> n < 100 \<Longrightarrow> toString_nat n = [digit_char (n div 10), digit_char (n mod 10)]"
  by (subst toString_nat.simps) (simp add: toString_nat_1)

lemma toString_nat_3:
  "100 \<le> n \<Longrightarrow> n < 1000
   \<Longrightarrow> toString_nat n = [digit_char (n div 100), digit_char (n div 10 mod 10), digit_char (n mod 10)]"
  by (subst toString_nat.simps) (simp add: toString_nat_2 div_mult2_eq [symmetric])

lemma toString_nat_4:
  "1000 \<le> n \<Longrightarrow> n < 10000
   \<Longrightarrow> toString_nat n = [digit_char (n div 1000), digit_char (n div 100 mod 10),
                          digit_char (n div 10 mod 10), digit_char (n mod 10)]"
  by (subst toString_nat.simps) (simp add: toString_nat_3 div_mult2_eq [symmetric])

lemma padStart_4_digits:
  assumes "n < 10000"
  shows "padStart 4 (CHR ''0'') (toString_nat n)
         = [digit_char (n div 1000), digit_char (n div 100 mod 10),
            digit_char (n div 10 mod 10), digit_char (n mod 10)]"
proof -
  have z: "CHR ''0'' = digit_char 0" by code_simp
  have r: "replicate 3 c = [c, c, c]" "replicate 2 c = [c, c]" for c :: char
    by (simp_all add: numeral_3_eq_3 numeral_2_eq_2)
  consider "n < 10" | "10 \<le> n" "n < 100" | "100 \<le> n" "n < 1000" | "1000 \<le> n" "n < 10000"
    using assms by linarith
  then show ?thesis
  proof cases
    case 1
    then show ?thesis by (simp add: padStart_def toString_nat_1 z r)
  next
    case 2
    then show ?thesis by (simp add: padStart_def toString_nat_2 z r)
  next
    case 3
    then show ?thesis by (simp add: padStart_def toString_nat_3 z)
  next
    case 4
    then show ?thesis by (simp add: padStart_def toString_nat_4)
  qed
qed

lemma handleSubmit_edit_keeps_number:
  "handleSubmit tza clients (Some sel) formData = Inr saved
   \<Longrightarrow> invoiceNumber saved = invoiceNumber sel \<and> Invoice.id' saved = Invoice.id' sel"
  by (erule handleSubmit_Inr) simp

lemma handleSaveInvoice_edit_numbers:
  "invoiceNumber saved = invoiceNumber sel \<Longrightarrow> Invoice.id' saved = Invoice.id' sel
   \<Longrightarrow> map invoiceNumber (handleSaveInvoice newId invoices (Some sel) saved)
       = map (\<lambda>i. if Invoice.id' i = Invoice.id' sel then invoiceNumber sel else invoiceNumber i)
           invoices"
  by (induction invoices) (auto simp: handleSaveInvoice_def)

lemma distinct_ids_numbers:
  assumes "sel \<in> set invoices" and "distinct (map Invoice.id' invoices)"
  shows "map (\<lambda>i. if Invoice.id' i = Invoice.id' sel then invoiceNumber sel else invoiceNumber i)
           invoices = map invoiceNumber invoices"
proof -
  from assms(2) have inj: "inj_on Invoice.id' (set invoices)"
    by (simp add: distinct_map)
  have "\<And>i. i \<in> set invoices \<Longrightarrow> Invoice.id' i = Invoice.id' sel \<Longrightarrow> i = sel"
    using inj assms(1) by (auto dest: inj_onD)
  then show ?thesis by (intro map_cong) auto
qed

lemma includes_str_map:
  "includes_str (map f s) p \<longleftrightarrow> (\<exists>pre mid post. s = pre @ mid @ post \<and> map f mid = p)"
proof
  assume "includes_str (map f s) p"
  then obtain a b where "map f s = a @ p @ b" unfolding includes_str_iff by blast
  then obtain pre rest where 1: "s = pre @ rest" "map f rest = p @ b"
    by (metis map_eq_append_conv)
  then obtain mid post where 2: "rest = mid @ post" "map f mid = p"
    by (metis map_eq_append_conv)
  with 1 show "\<exists>pre mid post. s = pre @ mid @ post \<and> map f mid = p" by blast
next
  assume "\<exists>pre mid post. s = pre @ mid @ post \<and> map f mid = p"
  then obtain pre mid post where "s = pre @ mid @ post" "map f mid = p" by blast
  then have "map f s = map f pre @ p @ map f post" by simp
  then show "includes_str (map f s) p" unfolding includes_str_iff by blast
qed

lemma of_char_less_256: "(of_char c :: nat) < 256"
proof -
  have "(of_char c :: nat) = of_char (char_of (of_char c :: nat))" by simp
  also have "\<dots> = (of_char c :: nat) mod 256" by (simp only: of_char_of)
  finally have "(of_char c :: nat) = (of_char c :: nat) mod 256" .
  moreover have "(of_char c :: nat) mod 256 < 256" by simp
  ultimately show ?thesis by simp
qed

lemma char_of_eq_iff:
  assumes "n < 256"
  shows "char_of (n :: nat) = p \<longleftrightarrow> n = of_char p"
proof
  assume "char_of n = p"
  then have "(of_char p :: nat) = n mod 256" by (auto simp: of_char_of)
  with assms show "n = of_char p" by simp
next
  assume "n = of_char p"
  then show "char_of n = p" by simp
qed

lemma toLowerCase_char_letter:
  assumes "97 \<le> (of_char p :: nat)" and "(of_char p :: nat) \<le> 122"
  shows "toLowerCase_char c = p \<longleftrightarrow> c = p \<or> (of_char c :: nat) + 32 = of_char p"
proof -
  let ?n = "of_char c :: nat"
  have lt: "?n < 256" by (rule of_char_less_256)
  consider (upper) "65 \<le> ?n" "?n \<le> 90"
    | (latin) "192 \<le> ?n" "?n \<le> 222" "?n \<noteq> 215"
    | (other) "\<not> (65 \<le> ?n \<and> ?n \<le> 90)" "\<not> (192 \<le> ?n \<and> ?n \<le> 222 \<and> ?n \<noteq> 215)"
    by blast
  then show ?thesis
  proof cases
    case upper
    then have "toLowerCase_char c = char_of (?n + 32)"
      by (simp add: toLowerCase_char_def Let_def)
    moreover have "char_of (?n + 32) = p \<longleftrightarrow> ?n + 32 = of_char p"
      using upper by (intro char_of_eq_iff) simp
    moreover have "c \<noteq> p" using upper assms by auto
    ultimately show ?thesis by simp
  next
    case latin
    then have "toLowerCase_char c = char_of (?n + 32)"
      by (simp add: toLowerCase_char_def Let_def)
    moreover have "char_of (?n + 32) = p \<longleftrightarrow> ?n + 32 = of_char p"
      using latin by (intro char_of_eq_iff) simp
    moreover have "c \<noteq> p" "?n + 32 \<noteq> of_char p" using latin assms by auto
    ultimately show ?thesis by simp
  next
    case other
    then have "\<not> ((65 \<le> ?n \<and> ?n \<le> 90) \<or> (192 \<le> ?n \<and> ?n \<le> 222 \<and> ?n \<noteq> 215))"
      by blast
    then have "toLowerCase_char c = c"
      unfolding toLowerCase_char_def Let_def by (rule if_not_P)
    moreover have "?n + 32 \<noteq> of_char p" using other assms by auto
    ultimately show ?thesis by simp
  qed
qed

lemma lower_match_mantenimiento:
  "map toLowerCase_char mid = ''mantenimiento''
   \<longleftrightarrow> list_all2 (\<lambda>c p. c = p \<or> (of_char c :: nat) + 32 = of_char p) mid ''mantenimiento''"
proof -
  have "map toLowerCase_char mid = ''mantenimiento''
        \<longleftrightarrow> list_all2 (\<lambda>c p. toLowerCase_char c = p) mid ''mantenimiento''"
    by (simp add: list_all2_map1 [symmetric] list.rel_eq)
  also have "\<dots> \<longleftrightarrow> list_all2 (\<lambda>c p. c = p \<or> (of_char c :: nat) + 32 = of_char p) mid ''mantenimiento''"
  proof (rule list.rel_cong [OF refl refl])
    fix c p assume "p \<in> set ''mantenimiento''"
    then have "97 \<le> (of_char p :: nat) \<and> (of_char p :: nat) \<le> 122" by auto
    then show "(toLowerCase_char c = p) = (c = p \<or> (of_char c :: nat) + 32 = of_char p)"
      by (simp add: toLowerCase_char_letter)
  qed
  finally show ?thesis .
qed


lemma maintenance_due_iff:
  "maintenance_due now invoice
   \<longleftrightarrow> (\<exists>s t. nextMaintenanceDate invoice = Some s \<and> Date_new s = Some t
              \<and> now \<le> t \<and> t \<le> now + 15 * msPerDay)"
proof (cases "nextMaintenanceDate invoice")
  case None
  then show ?thesis by (simp add: maintenance_due_def)
next
  case (Some s)
  have e: "Date_new [] = None" by (simp add: Date_new_def)
  show ?thesis
  proof (cases "Date_new s")
    case None
    with Some show ?thesis by (simp add: maintenance_due_def num_le_def num_ge_def)
  next
    case (Some t)
    with e have "s \<noteq> []" by auto
    with Some \<open>nextMaintenanceDate invoice = Some s\<close> show ?thesis
      by (auto simp: maintenance_due_def num_le_def num_ge_def msPerDay_def)
  qed
qed

lemma find_by_id_again:
  assumes "find (\<lambda>c. Client.id' c = k) clients = Some x"
  shows "find (\<lambda>c. Client.id' c = Client.id' x) clients = Some x"
proof -
  from assms have "Client.id' x = k" by (auto simp: find_Some_iff)
  with assms show ?thesis by simp
qed

lemma first_occurrences:
  assumes "\<And>x y. x \<in> set xs \<Longrightarrow> y \<in> set xs \<Longrightarrow> Client.id' x = Client.id' y \<Longrightarrow> x = y"
  shows "foldl (\<lambda>unique item.
              if find (\<lambda>u. Client.id' u = Client.id' item) unique \<noteq> None
              then unique else unique @ [item]) [] xs
         = rev (remdups (rev xs))"
  using assms
proof (induction xs rule: rev_induct)
  case Nil
  then show ?case by simp
next
  case (snoc x xs)
  let ?step = "\<lambda>unique item.
              if find (\<lambda>u. Client.id' u = Client.id' item) unique \<noteq> None
              then unique else unique @ [item]"
  let ?R = "rev (remdups (rev xs))"
  have IH: "foldl ?step [] xs = ?R"
    using snoc.prems by (intro snoc.IH) auto
  have mem: "find (\<lambda>u. Client.id' u = Client.id' x) ?R \<noteq> None \<longleftrightarrow> x \<in> set xs"
  proof
    assume "find (\<lambda>u. Client.id' u = Client.id' x) ?R \<noteq> None"
    then obtain u where "u \<in> set xs" "Client.id' u = Client.id' x"
      by (auto simp: find_None_iff)
    then have "u = x" using snoc.prems [of u x] by simp
    with \<open>u \<in> set xs\<close> show "x \<in> set xs" by simp
  next
    assume "x \<in> set xs"
    then show "find (\<lambda>u. Client.id' u = Client.id' x) ?R \<noteq> None"
      by (auto simp: find_None_iff)
  qed
  have "foldl ?step [] (xs @ [x]) = ?step ?R x"
    by (simp only: foldl_append foldl.simps IH)
  also have "\<dots> = (if x \<in> set xs then ?R else ?R @ [x])"
    by (simp only: mem)
  also have "\<dots> = rev (remdups (rev (xs @ [x])))" by simp
  finally show ?case .
qed

lemma due_clients_same_id:
  fixes invs :: "Invoice list"
  assumes "x \<in> set (List.map_filter (\<lambda>invoice. find (\<lambda>c. Client.id' c = clientId invoice) clients) invs)"
    and "y \<in> set (List.map_filter (\<lambda>invoice. find (\<lambda>c. Client.id' c = clientId invoice) clients) invs)"
    and "Client.id' x = Client.id' y"
  shows "x = y"
proof -
  from assms(1) obtain i :: Invoice
    where "find (\<lambda>c. Client.id' c = clientId i) clients = Some x"
    by (auto simp: map_filter_def)
  then have x: "find (\<lambda>c. Client.id' c = Client.id' x) clients = Some x"
    by (rule find_by_id_again)
  from assms(2) obtain j :: Invoice
    where "find (\<lambda>c. Client.id' c = clientId j) clients = Some y"
    by (auto simp: map_filter_def)
  then have "find (\<lambda>c. Client.id' c = Client.id' y) clients = Some y"
    by (rule find_by_id_again)
  with x assms(3) show ?thesis by simp
qed

lemma set_map_filter: "set (List.map_filter f xs) = {y. \<exists>x\<in>set xs. f x = Some y}"
proof (induction xs)
  case Nil
  then show ?case by (simp add: map_filter_simps)
next
  case (Cons x xs)
  then show ?case by (cases "f x") (auto simp: map_filter_simps)
qed

lemma map_filter_map: "List.map_filter (\<lambda>c. c) (map f xs) = List.map_filter f xs"
  by (simp add: map_filter_def filter_map comp_def)

lemma nextMaintenanceDate_utc_example:
  "handleSubmit 0 [ex_client Residencial] None
     (ex_draft ''2024-03-01'' [ex_item True False 1 100] Borrador [])
   = Inr ((ex_draft ''2024-03-01'' [ex_item True False 1 100] Borrador [])
            \<lparr> nextMaintenanceDate := Some ''2024-09-01'' \<rparr>)"
  by code_simp

lemma monthlyData_utc_example:
  "monthlyData 0 1710504000000
     [ex_paid ''2024-03-01'' Pagada 100, ex_paid ''2024-03-10'' Borrador 50]
     [ex_expense ''2024-03-01'' 40]
   = \<lparr> income = 100, totalExpenses = 40 \<rparr>"
  by code_simp

lemma monthlyData_sums:
  "income (monthlyData tza now invoices expenses)
     = (\<Sum>invoice\<leftarrow>filter (\<lambda>invoice. status invoice = Pagada
                                  \<and> in_current_month tza now (issueDate invoice)) invoices.
          \<Sum>item\<leftarrow>Invoice.items invoice. InvoiceItem.quantity item * InvoiceItem.unitPrice item)
   \<and> totalExpenses (monthlyData tza now invoices expenses)
     = (\<Sum>exp\<leftarrow>filter (\<lambda>exp. in_current_month tza now (date exp)) expenses. amount exp)
   \<and> monthlyProfit tza now invoices expenses
     = income (monthlyData tza now invoices expenses)
       - totalExpenses (monthlyData tza now invoices expenses)"
  by (simp add: monthlyData_def monthlyProfit_def foldl_add_sum_list conj_commute)


subsection \<open>The calendar: reading back the fields of a date\<close>

lemma ceil_div:
  fixes y k :: int
  assumes "0 < k"
  shows "(y + (k - 1)) div k = y div k + (if y mod k = 0 then 0 else 1)"
proof (cases "y mod k = 0")
  case True
  have e: "y + (k - 1) = k * (y div k) + (k - 1)"
    using True mult_div_mod_eq [of k y] by simp
  have "(y + (k - 1)) div k = y div k"
    by (rule int_div_pos_eq [OF e]) (use assms in simp_all)
  with True show ?thesis by simp
next
  case False
  have r: "0 \<le> y mod k" "y mod k < k" using assms by simp_all
  have e: "y + (k - 1) = k * (y div k + 1) + (y mod k - 1)"
    using mult_div_mod_eq [of k y] by (simp add: algebra_simps)
  have "(y + (k - 1)) div k = y div k + 1"
    by (rule int_div_pos_eq [OF e]) (use r False in simp_all)
  with False show ?thesis by simp
qed

lemma div_shift:
  fixes x k n :: int
  assumes "0 < k"
  shows "(x - k * n) div k = x div k - n"
proof -
  have e: "x - k * n = k * (x div k - n) + x mod k"
    using mult_div_mod_eq [of k x] by (simp add: algebra_simps)
  show ?thesis
    by (rule int_div_pos_eq [OF e]) (use assms in simp_all)
qed

lemma floor_div_offset:
  fixes y k n :: int
  assumes "0 < k"
  shows "(y + (k - 1) - k * n) div k = y div k + (if y mod k = 0 then 0 else 1) - n"
  using div_shift [OF assms, of "y + (k - 1)" n] ceil_div [OF assms, of y] by simp

lemma DayFromYear_alt:
  "DayFromYear y = 365 * (y - 1970) + y div 4 - y div 100 + y div 400
     + (if y mod 4 = 0 then 0 else 1) - (if y mod 100 = 0 then 0 else 1)
     + (if y mod 400 = 0 then 0 else 1) - 478"
proof -
  have "y - 1969 = y + (4 - 1) - 4 * 493" by simp
  then have a: "(y - 1969) div 4 = y div 4 + (if y mod 4 = 0 then 0 else 1) - 493"
    using floor_div_offset [of 4 y 493] by simp
  have "y - 1901 = y + (100 - 1) - 100 * 20" by simp
  then have b: "(y - 1901) div 100 = y div 100 + (if y mod 100 = 0 then 0 else 1) - 20"
    using floor_div_offset [of 100 y 20] by simp
  have "y - 1601 = y + (400 - 1) - 400 * 5" by simp
  then have c: "(y - 1601) div 400 = y div 400 + (if y mod 400 = 0 then 0 else 1) - 5"
    using floor_div_offset [of 400 y 5] by simp
  show ?thesis unfolding DayFromYear_def a b c by simp
qed

lemma DayFromYear_next:
  "DayFromYear (y + 1) = DayFromYear y + 365 + (if InLeapYear y then 1 else 0)"
proof -
  have "y + 1 - 1969 = (y + 1) + (4 - 1) - 4 * 493" by simp
  have a: "(y + 1 - 1969) div 4 = y div 4 - 492"
    using div_shift [of 4 y "- 1"] div_shift [of 4 "y + 4" 493] by simp
  have b: "(y + 1 - 1901) div 100 = y div 100 - 19"
    using div_shift [of 100 y "- 1"] div_shift [of 100 "y + 100" 20] by simp
  have c: "(y + 1 - 1601) div 400 = y div 400 - 4"
    using div_shift [of 400 y "- 1"] div_shift [of 400 "y + 400" 5] by simp
  have n: "DayFromYear (y + 1) = 365 * (y - 1969) + y div 4 - y div 100 + y div 400 - 477"
    unfolding DayFromYear_def a b c by simp
  have m1: "y mod 100 = 0" if "y mod 400 = 0"
    using that mod_mod_cancel [of 100 400 y] by simp
  have m2: "y mod 4 = 0" if "y mod 100 = 0"
    using that mod_mod_cancel [of 4 100 y] by simp
  show ?thesis
    unfolding n DayFromYear_alt [of y] InLeapYear_def using m1 m2 by auto
qed

lemma div_bounds:
  fixes x k :: int
  assumes "0 < k"
  shows "k * (x div k) \<le> x" and "x < k * (x div k) + k"
proof -
  have e: "x = k * (x div k) + x mod k" by simp
  have "0 \<le> x mod k" "x mod k < k" using assms by simp_all
  with e show "k * (x div k) \<le> x" and "x < k * (x div k) + k" by linarith+
qed

lemma DayFromYear_bounds:
  "146097 * (y - 1970) - 506 \<le> 400 * DayFromYear y"
  "400 * DayFromYear y \<le> 146097 * (y - 1970) + 589"
proof -
  define a where "a = (y - 1969) div 4"
  define b where "b = (y - 1901) div 100"
  define c where "c = (y - 1601) div 400"
  have a: "4 * a \<le> y - 1969" "y - 1969 < 4 * a + 4"
    unfolding a_def by (rule div_bounds, simp)+
  have b: "100 * b \<le> y - 1901" "y - 1901 < 100 * b + 100"
    unfolding b_def by (rule div_bounds, simp)+
  have c: "400 * c \<le> y - 1601" "y - 1601 < 400 * c + 400"
    unfolding c_def by (rule div_bounds, simp)+
  have a': "100 * y - 197200 \<le> 400 * a" "400 * a \<le> 100 * y - 196900" using a by linarith+
  have b': "4 * y - 8000 \<le> 400 * b" "400 * b \<le> 4 * y - 7604" using b by linarith+
  have c': "y - 2000 \<le> 400 * c" "400 * c \<le> y - 1601" using c by linarith+
  have d: "400 * DayFromYear y = 146000 * y - 287620000 + 400 * a - 400 * b + 400 * c"
    by (simp add: DayFromYear_def a_def b_def c_def)
  have lo: "146000 * y - 287620000 + (100 * y - 197200) - (4 * y - 7604) + (y - 2000)
              \<le> 400 * DayFromYear y"
    using a'(1) b'(2) c'(1) d by linarith
  have hi: "400 * DayFromYear y
              \<le> 146000 * y - 287620000 + (100 * y - 196900) - (4 * y - 8000) + (y - 1601)"
    using a'(2) b'(1) c'(2) d by linarith
  show "146097 * (y - 1970) - 506 \<le> 400 * DayFromYear y" using lo by simp
  show "400 * DayFromYear y \<le> 146097 * (y - 1970) + 589" using hi by simp
qed

lemma YearFromDay_correct:
  assumes "DayFromYear y \<le> d" and "d < DayFromYear (y + 1)"
  shows "YearFromDay d = y"
proof -
  define e where "e = 1970 + (400 * d) div 146097"
  have lo: "146097 * (y - 1970) - 506 \<le> 400 * d"
    using DayFromYear_bounds(1) [of y] assms(1) by linarith
  have "400 * d < 400 * DayFromYear (y + 1)" using assms(2) by simp
  then have hi: "400 * d < 146097 * (y - 1969) + 589"
    using DayFromYear_bounds(2) [of "y + 1"] by simp
  have q: "146097 * ((400 * d) div 146097) \<le> 400 * d"
    "400 * d < 146097 * ((400 * d) div 146097) + 146097"
    by (rule div_bounds, simp)+
  have q': "146097 * (e - 1970) \<le> 400 * d" "400 * d < 146097 * (e - 1970) + 146097"
    using q unfolding e_def by simp_all
  have "146097 * (y - 1970) - 506 < 146097 * (e - 1970) + 146097"
    using lo q'(2) by linarith
  then have e1: "y - 1 \<le> e" by simp
  have "146097 * (e - 1970) < 146097 * (y - 1969) + 589"
    using hi q'(1) by linarith
  then have e2: "e \<le> y + 1" by simp
  have n1: "DayFromYear (y + 1) < DayFromYear (y + 1 + 1)"
    unfolding DayFromYear_next [of "y + 1"] by simp
  from e1 e2 consider "e = y - 1" | "e = y" | "e = y + 1" by linarith
  then show ?thesis
  proof cases
    case 1
    then have "e + 1 = y" by simp
    then show ?thesis using assms unfolding YearFromDay_def Let_def e_def [symmetric] by simp
  next
    case 2
    then show ?thesis using assms unfolding YearFromDay_def Let_def e_def [symmetric] by simp
  next
    case 3
    then show ?thesis using assms n1 unfolding YearFromDay_def Let_def e_def [symmetric] by simp
  qed
qed

lemma month_cases:
  fixes mo :: int
  assumes "0 \<le> mo" and "mo < 12"
  obtains "mo = 0" | "mo = 1" | "mo = 2" | "mo = 3" | "mo = 4" | "mo = 5" | "mo = 6"
    | "mo = 7" | "mo = 8" | "mo = 9" | "mo = 10" | "mo = 11"
proof -
  have u: "[0..11] = [0, 1, 2, 3, 4, 5, 6, 7, 8, 9, 10, 11 :: int]" by code_simp
  have "mo \<in> set [0..11]" using assms by simp
  then have "mo \<in> set [0, 1, 2, 3, 4, 5, 6, 7, 8, 9, 10, 11 :: int]" unfolding u .
  then show thesis using that by auto
qed

lemma Day_MakeDate:
  assumes "0 \<le> r" and "r < msPerDay"
  shows "Day (MakeDate D r) = D" and "TimeWithinDay (MakeDate D r) = r"
proof -
  have e: "MakeDate D r = msPerDay * D + r" by (simp add: MakeDate_def)
  show "Day (MakeDate D r) = D"
    unfolding Day_def by (rule int_div_pos_eq [OF e]) (use assms in simp_all)
  show "TimeWithinDay (MakeDate D r) = r"
    unfolding TimeWithinDay_def by (rule int_mod_pos_eq [OF e]) (use assms in simp_all)
qed

lemma MakeDay_in_year:
  assumes "0 \<le> mo" and "mo < 12"
  shows "MakeDay y mo d = DayFromYear y + DaysBeforeMonth mo (InLeapYear y) + d - 1"
proof -
  have "mo div 12 = 0" "mo mod 12 = mo" using assms by simp_all
  then show ?thesis by (simp add: MakeDay_def)
qed

lemma fields_of_day:
  assumes "0 \<le> mo" and "mo < 12" and "1 \<le> d" and "d \<le> DaysInMonth mo (InLeapYear y)"
  shows "YearFromDay (MakeDay y mo d) = y"
    and "MakeDay y mo d - DayFromYear y = DaysBeforeMonth mo (InLeapYear y) + d - 1"
    and "DaysBeforeMonth mo (InLeapYear y) + d - 1 < 365 + (if InLeapYear y then 1 else 0)"
proof -
  have m: "MakeDay y mo d = DayFromYear y + DaysBeforeMonth mo (InLeapYear y) + d - 1"
    using assms(1,2) by (rule MakeDay_in_year)
  have lo: "0 \<le> DaysBeforeMonth mo (InLeapYear y)"
    by (simp add: DaysBeforeMonth_def Let_def)
  from assms(1,2)
  show hi: "DaysBeforeMonth mo (InLeapYear y) + d - 1 < 365 + (if InLeapYear y then 1 else 0)"
    by (cases rule: month_cases)
      (use assms(4) in \<open>auto simp: DaysBeforeMonth_def DaysInMonth_def Let_def
          split: if_splits\<close>)
  show "MakeDay y mo d - DayFromYear y = DaysBeforeMonth mo (InLeapYear y) + d - 1"
    using m by simp
  have "DayFromYear y \<le> MakeDay y mo d" using m lo assms(3) by simp
  moreover have "MakeDay y mo d < DayFromYear (y + 1)"
    using m hi unfolding DayFromYear_next [of y] by simp
  ultimately show "YearFromDay (MakeDay y mo d) = y" by (rule YearFromDay_correct)
qed

lemma date_fields_roundtrip:
  assumes "0 \<le> mo" and "mo < 12" and "1 \<le> d" and "d \<le> DaysInMonth mo (InLeapYear y)"
    and "0 \<le> r" and "r < msPerDay"
  shows "YearFromTime (MakeDate (MakeDay y mo d) r) = y
       \<and> MonthFromTime (MakeDate (MakeDay y mo d) r) = mo
       \<and> DateFromTime (MakeDate (MakeDay y mo d) r) = d"
proof -
  let ?t = "MakeDate (MakeDay y mo d) r"
  have D: "Day ?t = MakeDay y mo d" using assms(5,6) by (rule Day_MakeDate)
  have Y: "YearFromTime ?t = y"
    unfolding YearFromTime_def D using assms(1-4) by (rule fields_of_day)
  have W: "DayWithinYear ?t = DaysBeforeMonth mo (InLeapYear y) + d - 1"
    unfolding DayWithinYear_def D Y using assms(1-4) by (rule fields_of_day)
  have M': "MonthFromTime ?t =
     (let d = DaysBeforeMonth mo (InLeapYear y) + d - 1; l = (if InLeapYear y then 1 else 0)
      in if d < 31 then 0 else if d < 59 + l then 1 else if d < 90 + l then 2
         else if d < 120 + l then 3 else if d < 151 + l then 4
         else if d < 181 + l then 5 else if d < 212 + l then 6
         else if d < 243 + l then 7 else if d < 273 + l then 8
         else if d < 304 + l then 9 else if d < 334 + l then 10 else 11)"
    unfolding MonthFromTime_def W Y ..
  from assms(1,2) have M: "MonthFromTime ?t = mo"
    unfolding M'
    by (cases rule: month_cases)
      (use assms(3,4) in \<open>auto simp: DaysBeforeMonth_def DaysInMonth_def Let_def
          split: if_splits\<close>)
  have "DateFromTime ?t = d" unfolding DateFromTime_def W Y M by simp
  with Y M show ?thesis by simp
qed

lemma local_fields:
  assumes "0 \<le> mo" and "mo < 12" and "1 \<le> d" and "d \<le> DaysInMonth mo (InLeapYear y)"
    and "0 \<le> tza" and "tza < msPerDay"
  shows "YearFromTime (MakeDate (MakeDay y mo d) 0 + tza) = y"
    and "MonthFromTime (MakeDate (MakeDay y mo d) 0 + tza) = mo"
    and "DateFromTime (MakeDate (MakeDay y mo d) 0 + tza) = d"
    and "TimeWithinDay (MakeDate (MakeDay y mo d) 0 + tza) = tza"
proof -
  have e: "MakeDate (MakeDay y mo d) 0 + tza = MakeDate (MakeDay y mo d) tza"
    by (simp add: MakeDate_def)
  from date_fields_roundtrip [OF assms]
  show "YearFromTime (MakeDate (MakeDay y mo d) 0 + tza) = y"
    and "MonthFromTime (MakeDate (MakeDay y mo d) 0 + tza) = mo"
    and "DateFromTime (MakeDate (MakeDay y mo d) 0 + tza) = d"
    unfolding e by simp_all
  show "TimeWithinDay (MakeDate (MakeDay y mo d) 0 + tza) = tza"
    unfolding e using assms(5,6) by (rule Day_MakeDate)
qed

lemma in_current_month_east_of_utc:
  assumes "0 \<le> tza" and "tza < msPerDay"
    and "Date_new s = Some (MakeDate (MakeDay y mo d) 0)"
    and "0 \<le> mo" and "mo < 12" and "1 \<le> d" and "d \<le> DaysInMonth mo (InLeapYear y)"
  shows "in_current_month tza now s
         \<longleftrightarrow> YearFromTime (now + tza) = y \<and> MonthFromTime (now + tza) = mo"
  using local_fields(1,2) [OF assms(4-7) assms(1,2)] assms(3)
  by (auto simp: in_current_month_def getMonth_def getFullYear_def num_eq_def Let_def)

lemma setMonth_east_of_utc:
  assumes "0 \<le> tza" and "tza < msPerDay"
    and "0 \<le> mo" and "mo < 12" and "1 \<le> d" and "d \<le> DaysInMonth mo (InLeapYear y)"
  shows "setMonth tza (Some (MakeDate (MakeDay y mo d) 0))
           (map_option (\<lambda>m. m + 6) (getMonth tza (Some (MakeDate (MakeDay y mo d) 0))))
         = TimeClip (MakeDate (MakeDay y (mo + 6) d) 0)"
proof -
  note f = local_fields [OF assms(3-6) assms(1,2)]
  have "MakeDate (MakeDay y (mo + 6) d) tza - tza = MakeDate (MakeDay y (mo + 6) d) 0"
    by (simp add: MakeDate_def)
  then show ?thesis
    by (simp add: setMonth_def getMonth_def f Let_def)
qed

lemma nextMaintenanceDate_east_of_utc:
  assumes "0 \<le> tza" and "tza < msPerDay"
    and "list_ex (\<lambda>item. truthy (isMaintenance item)) (Invoice.items formData)"
    and "Date_new (issueDate formData) = Some (MakeDate (MakeDay y mo d) 0)"
    and "0 \<le> mo" and "mo < 12" and "1 \<le> d" and "d \<le> DaysInMonth mo (InLeapYear y)"
  shows "derive_nextMaintenanceDate tza formData
         = (case toISOString (TimeClip (MakeDate (MakeDay y (mo + 6) d) 0)) of
              None \<Rightarrow> Inl RangeError
            | Some isoString \<Rightarrow> Inr (Some (split_T_0 isoString)))"
  using assms(3,4) setMonth_east_of_utc [OF assms(1,2) assms(5-8)]
  by (simp add: derive_nextMaintenanceDate_def Let_def)


subsection \<open>Numbers: rounding, and the sums that are exact\<close>

lemma pow2_powi: "pow2 e = 2 powi e"
  by (simp add: pow2_def power_int_def inverse_eq_divide power_one_over)

lemma pow2_pos: "0 < pow2 e"
  by (simp add: pow2_powi)

lemma pow2_add: "pow2 (a + b) = pow2 a * pow2 b"
  by (simp add: pow2_powi power_int_add)

lemma pow2_mono: "a \<le> b \<Longrightarrow> pow2 a \<le> pow2 b"
  by (simp add: pow2_powi power_int_increasing)

lemma pow2_strict_mono: "a < b \<Longrightarrow> pow2 a < pow2 b"
  by (simp add: pow2_powi power_int_strict_increasing)

lemma pow2_less_cancel: "pow2 a < pow2 b \<Longrightarrow> a < b"
  using pow2_mono [of b a] by (cases "a < b") auto

lemma pow2_nat: "0 \<le> e \<Longrightarrow> pow2 e = of_int (2 ^ nat e)"
  by (simp add: pow2_def)

lemma pow2_neg: "pow2 (- e) = 1 / pow2 e"
  using pow2_add [of e "- e"] pow2_pos [of e] by (simp add: pow2_def field_simps)

lemma ilog2_bounds:
  assumes "0 < x"
  shows "pow2 (ilog2 x) \<le> x" and "x < pow2 (ilog2 x + 1)"
proof -
  show "pow2 (ilog2 x) \<le> x"
  proof (cases "1 \<le> x")
    case True
    then have p: "0 < \<lfloor>x\<rfloor>" by simp
    from bitlen_bounds [OF p] have "2 ^ nat (bitlen \<lfloor>x\<rfloor> - 1) \<le> \<lfloor>x\<rfloor>" by simp
    then have "(of_int (2 ^ nat (bitlen \<lfloor>x\<rfloor> - 1)) :: real) \<le> of_int \<lfloor>x\<rfloor>"
      by (simp only: of_int_le_iff)
    also have "\<dots> \<le> x" by (rule of_int_floor_le)
    finally have "(of_int (2 ^ nat (bitlen \<lfloor>x\<rfloor> - 1)) :: real) \<le> x" .
    moreover have "(of_int (2 ^ nat (bitlen \<lfloor>x\<rfloor> - 1)) :: real) = 2 ^ nat (bitlen \<lfloor>x\<rfloor> - 1)"
      by simp
    ultimately have "(2 :: real) ^ nat (bitlen \<lfloor>x\<rfloor> - 1) \<le> x" by (simp only:)
    moreover have "0 \<le> bitlen \<lfloor>x\<rfloor> - 1"
      using p bitlen_eq_zero_iff [of "\<lfloor>x\<rfloor>"] bitlen_nonneg [of "\<lfloor>x\<rfloor>"] by linarith
    ultimately show ?thesis using True by (simp add: ilog2_def pow2_def)
  next
    case False
    let ?n = "\<lceil>1 / x\<rceil>"
    let ?B = "bitlen (?n - 1)"
    from False assms have "1 < 1 / x" by simp
    then have n2: "2 \<le> ?n" by linarith
    then have p: "0 < ?n - 1" by simp
    from bitlen_bounds [OF p] have "?n - 1 < 2 ^ nat ?B" by simp
    then have "?n \<le> 2 ^ nat ?B" by simp
    then have "(of_int ?n :: real) \<le> of_int (2 ^ nat ?B)" by (simp only: of_int_le_iff)
    also have "(of_int (2 ^ nat ?B) :: real) = 2 ^ nat ?B" by simp
    finally have a: "(of_int ?n :: real) \<le> 2 ^ nat ?B" .
    have "1 / x \<le> of_int ?n" by (rule le_of_int_ceiling)
    from this a have "1 / x \<le> 2 ^ nat ?B" by (rule order_trans)
    then have "1 / 2 ^ nat ?B \<le> x"
      using assms by (simp add: field_simps)
    moreover have "pow2 (- ?B) = 1 / 2 ^ nat ?B"
      using bitlen_nonneg [of "?n - 1"] by (simp add: pow2_neg pow2_def)
    ultimately show ?thesis using False by (simp add: ilog2_def)
  qed
  show "x < pow2 (ilog2 x + 1)"
  proof (cases "1 \<le> x")
    case True
    then have p: "0 < \<lfloor>x\<rfloor>" by simp
    from bitlen_bounds [OF p] have "\<lfloor>x\<rfloor> + 1 \<le> 2 ^ nat (bitlen \<lfloor>x\<rfloor>)" by simp
    then have "(of_int (\<lfloor>x\<rfloor> + 1) :: real) \<le> of_int (2 ^ nat (bitlen \<lfloor>x\<rfloor>))"
      by (simp only: of_int_le_iff)
    also have "(of_int (2 ^ nat (bitlen \<lfloor>x\<rfloor>)) :: real) = 2 ^ nat (bitlen \<lfloor>x\<rfloor>)" by simp
    finally have a: "(of_int (\<lfloor>x\<rfloor> + 1) :: real) \<le> 2 ^ nat (bitlen \<lfloor>x\<rfloor>)" .
    have "x < of_int (\<lfloor>x\<rfloor> + 1)" by linarith
    from this a have "x < 2 ^ nat (bitlen \<lfloor>x\<rfloor>)" by (rule less_le_trans)
    then show ?thesis
      using True bitlen_nonneg [of "\<lfloor>x\<rfloor>"] by (simp add: ilog2_def pow2_def)
  next
    case False
    let ?n = "\<lceil>1 / x\<rceil>"
    let ?B = "bitlen (?n - 1)"
    from False assms have "1 < 1 / x" by simp
    then have n2: "2 \<le> ?n" by linarith
    then have p: "0 < ?n - 1" by simp
    have B1: "1 \<le> ?B"
      using p bitlen_eq_zero_iff [of "?n - 1"] bitlen_nonneg [of "?n - 1"] by linarith
    from bitlen_bounds [OF p] have "2 ^ nat (?B - 1) \<le> ?n - 1" by simp
    then have "(of_int (2 ^ nat (?B - 1)) :: real) \<le> of_int (?n - 1)"
      by (simp only: of_int_le_iff)
    moreover have "(of_int (2 ^ nat (?B - 1)) :: real) = 2 ^ nat (?B - 1)" by simp
    ultimately have a: "(2 :: real) ^ nat (?B - 1) \<le> of_int (?n - 1)" by (simp only:)
    have "of_int (?n - 1) < 1 / x" by linarith
    with a have "2 ^ nat (?B - 1) < 1 / x" by (rule le_less_trans)
    then have "x < 1 / 2 ^ nat (?B - 1)"
      using assms by (simp add: field_simps)
    moreover have "pow2 (- ?B + 1) = 1 / 2 ^ nat (?B - 1)"
      using B1 pow2_neg [of "?B - 1"] by (simp add: pow2_def)
    ultimately show ?thesis using False by (simp add: ilog2_def)
  qed
qed

lemma ilog2_unique:
  assumes "0 < x" and "pow2 a \<le> x" and "x < pow2 (a + 1)"
  shows "ilog2 x = a"
proof -
  have "pow2 (ilog2 x) < pow2 (a + 1)"
    using ilog2_bounds(1) [OF assms(1)] assms(3) by linarith
  then have 1: "ilog2 x < a + 1" by (rule pow2_less_cancel)
  have "pow2 a < pow2 (ilog2 x + 1)"
    using ilog2_bounds(2) [OF assms(1)] assms(2) by linarith
  then have "a < ilog2 x + 1" by (rule pow2_less_cancel)
  with 1 show ?thesis by simp
qed

lemma round_half_even_int: "round_half_even (of_int k) = k"
  by (simp add: round_half_even_def)

lemma to_Number_dyadic:
  assumes "k \<noteq> 0" and "bitlen \<bar>k\<bar> \<le> 53" and "- 1074 \<le> c" and "bitlen \<bar>k\<bar> + c \<le> 1024"
  shows "to_Number (of_int k * pow2 c) = Fin (of_int k * pow2 c)"
proof -
  let ?x = "of_int k * pow2 c :: real"
  let ?b = "bitlen \<bar>k\<bar>"
  define e where "e = max (?b - 1 + c) (- 1022)"
  define j where "j = c - (e - 52)"
  define m where "m = k * 2 ^ nat j"
  have kpos: "0 < \<bar>k\<bar>" using assms(1) by simp
  have b1: "1 \<le> ?b"
    using kpos bitlen_eq_zero_iff [of "\<bar>k\<bar>"] bitlen_nonneg [of "\<bar>k\<bar>"] by linarith
  have x0: "?x \<noteq> 0" using assms(1) pow2_pos [of c] by simp
  have ax: "\<bar>?x\<bar> = of_int \<bar>k\<bar> * pow2 c"
    using pow2_pos [of c] by (simp add: abs_mult)
  from bitlen_bounds [OF kpos]
  have lo: "2 ^ nat (?b - 1) \<le> \<bar>k\<bar>" and hi: "\<bar>k\<bar> < 2 ^ nat ?b" by simp_all
  have lo': "pow2 (?b - 1) \<le> of_int \<bar>k\<bar>"
  proof -
    have "(of_int (2 ^ nat (?b - 1)) :: real) \<le> of_int \<bar>k\<bar>"
      using lo by (simp only: of_int_le_iff)
    then show ?thesis using b1 by (simp add: pow2_nat)
  qed
  have hi': "of_int \<bar>k\<bar> < pow2 ?b"
  proof -
    have "(of_int \<bar>k\<bar> :: real) < of_int (2 ^ nat ?b)"
      using hi by (simp only: of_int_less_iff)
    then show ?thesis using b1 by (simp add: pow2_nat)
  qed
  have il: "ilog2 \<bar>?x\<bar> = ?b - 1 + c"
  proof (rule ilog2_unique)
    show "0 < \<bar>?x\<bar>" using x0 by simp
    show "pow2 (?b - 1 + c) \<le> \<bar>?x\<bar>"
      unfolding ax pow2_add using lo' pow2_pos [of c] by (simp add: mult_right_mono)
    have "\<bar>?x\<bar> < pow2 ?b * pow2 c"
      unfolding ax using hi' pow2_pos [of c] by (simp add: mult_strict_right_mono)
    then show "\<bar>?x\<bar> < pow2 (?b - 1 + c + 1)" by (simp add: pow2_add [symmetric])
  qed
  have j0: "0 \<le> j"
    using assms(2,3) unfolding j_def e_def by (simp add: max_def)
  have c: "pow2 c = pow2 j * pow2 (e - 52)"
    unfolding pow2_add [symmetric] j_def by simp
  have mj: "(of_int m :: real) = of_int k * pow2 j"
    using j0 by (simp add: m_def pow2_nat)
  have div: "?x / pow2 (e - 52) = of_int m"
    using pow2_pos [of "e - 52"] by (simp add: c mj)
  have val: "of_int m * pow2 (e - 52) = ?x"
    by (simp add: c mj)
  have e1023: "e \<le> 1023"
    using assms(4) unfolding e_def by simp
  have m53: "\<bar>m\<bar> \<noteq> 9007199254740992" if "e = 1023"
  proof -
    from that have "e = ?b - 1 + c" unfolding e_def by (simp add: max_def split: if_splits)
    then have j: "j = 53 - ?b" unfolding j_def by simp
    have "\<bar>m\<bar> = \<bar>k\<bar> * 2 ^ nat j" by (simp add: m_def abs_mult)
    also have "\<dots> < 2 ^ nat ?b * 2 ^ nat j" using hi by simp
    also have "\<dots> = 2 ^ (nat ?b + nat j)" by (simp add: power_add)
    also have "nat ?b + nat j = 53" using j b1 assms(2) by simp
    finally show ?thesis by simp
  qed
  have "to_Number ?x =
     (if 1023 < e then (if 0 < ?x then PosInf else NegInf)
      else if e = 1023 \<and> \<bar>round_half_even (?x / pow2 (e - 52))\<bar> = 9007199254740992
      then (if 0 < ?x then PosInf else NegInf)
      else Fin (of_int (round_half_even (?x / pow2 (e - 52))) * pow2 (e - 52)))"
    unfolding to_Number_def Let_def il e_def [symmetric] using x0 by simp
  also have "\<dots> = Fin ?x"
    using e1023 m53 unfolding div round_half_even_int val by auto
  finally show ?thesis .
qed


lemma round_half_even_bounds:
  "\<lfloor>n\<rfloor> \<le> round_half_even n \<and> round_half_even n \<le> \<lfloor>n\<rfloor> + 1"
  by (simp add: round_half_even_def Let_def)

lemma round_half_even_abs:
  assumes "\<bar>n\<bar> < 9007199254740992"
  shows "\<bar>round_half_even n\<bar> \<le> 9007199254740992"
proof -
  from assms have "n < 9007199254740992" "- 9007199254740992 < n" by linarith+
  then have "\<lfloor>n\<rfloor> < 9007199254740992" "- 9007199254740992 \<le> \<lfloor>n\<rfloor>"
    by (simp_all add: floor_less_iff le_floor_iff)
  with round_half_even_bounds [of n] show ?thesis by linarith
qed

lemma pow2_53: "pow2 (e + 1) = 9007199254740992 * pow2 (e - 52)"
proof -
  have "e + 1 = 53 + (e - 52)" by simp
  then have "pow2 (e + 1) = pow2 (53 + (e - 52))" by (simp only:)
  also have "\<dots> = pow2 53 * pow2 (e - 52)" by (rule pow2_add)
  also have "pow2 53 = 9007199254740992" by (simp add: pow2_def)
  finally show ?thesis .
qed

lemma to_Number_idem:
  assumes "to_Number x = Fin r"
  shows "to_Number r = Fin r"
proof (cases "x = 0")
  case True
  with assms show ?thesis by (simp add: to_Number_def)
next
  case False
  define e where "e = max (ilog2 \<bar>x\<bar>) (- 1022)"
  define m where "m = round_half_even (x / pow2 (e - 52))"
  from assms False have fin: "e \<le> 1023" "\<not> (e = 1023 \<and> \<bar>m\<bar> = 9007199254740992)"
    and r: "r = of_int m * pow2 (e - 52)"
    unfolding to_Number_def Let_def e_def [symmetric] m_def [symmetric]
    by (auto split: if_splits)
  have elo: "- 1022 \<le> e" unfolding e_def by simp
  have "\<bar>x\<bar> < pow2 (ilog2 \<bar>x\<bar> + 1)"
    using False by (intro ilog2_bounds) simp
  also have "\<dots> \<le> pow2 (e + 1)"
    unfolding e_def by (intro pow2_mono) simp
  also have "\<dots> = 9007199254740992 * pow2 (e - 52)"
    by (rule pow2_53)
  finally have "\<bar>x\<bar> / pow2 (e - 52) < 9007199254740992"
    using pow2_pos [of "e - 52"] by (simp add: field_simps)
  then have "\<bar>x / pow2 (e - 52)\<bar> < 9007199254740992"
    using pow2_pos [of "e - 52"] by (simp add: abs_divide)
  then have mb: "\<bar>m\<bar> \<le> 9007199254740992"
    unfolding m_def by (rule round_half_even_abs)
  show ?thesis
  proof (cases "m = 0")
    case True
    then show ?thesis unfolding r by (simp add: to_Number_def)
  next
    case m0: False
    show ?thesis
    proof (cases "\<bar>m\<bar> = 9007199254740992")
      case True
      then consider "m = 9007199254740992" | "m = - 9007199254740992" by linarith
      then obtain k :: int where k: "\<bar>k\<bar> = 1" "k \<noteq> 0" "m = k * 9007199254740992"
      proof cases
        case 1
        then show ?thesis using that [of 1] by simp
      next
        case 2
        then show ?thesis using that [of "- 1"] by simp
      qed
      have "bitlen 1 = 1" by code_simp
      with k have b: "bitlen \<bar>k\<bar> = 1" by simp
      from fin True have e1022: "e \<le> 1022" by linarith
      have "to_Number (of_int k * pow2 (e + 1)) = Fin (of_int k * pow2 (e + 1))"
        by (rule to_Number_dyadic) (use k b elo e1022 in simp_all)
      moreover have "of_int k * pow2 (e + 1) = r"
        unfolding r k(3) pow2_53 by simp
      ultimately show ?thesis by simp
    next
      case False
      with mb have "\<bar>m\<bar> < 2 ^ nat 53" by simp
      then have b: "bitlen \<bar>m\<bar> \<le> 53" by (simp add: bitlen_le_iff_power)
      show ?thesis
        unfolding r by (rule to_Number_dyadic) (use m0 b elo fin(1) in simp_all)
    qed
  qed
qed


lemma js_mul_idem:
  "js_mul x y = Fin r \<Longrightarrow> to_Number r = Fin r"
  unfolding js_mul_def by (rule to_Number_idem)














text \<open>
  The sums are those of doubles, not of the exact products, and depend on the order:
  three units at the double nearest to 0.1 cost 0.30000000000000004, the double above
  three times that price, and 1 added to \<open>10^16\<close> is lost.
\<close>

lemma subtotal_absorbs:
  "subtotal [ex_item False False 1 10000000000000000, ex_item False False 1 1,
             ex_item False False 1 (- 10000000000000000)] = Fin 0"
  by code_simp

lemma subtotal_rounds:
  "subtotal [ex_item False False 3 (3602879701896397 / 36028797018963968)]
     = Fin (5404319552844596 / 18014398509481984)
   \<and> subtotal [ex_item False False 3 (3602879701896397 / 36028797018963968)]
     \<noteq> Fin (3 * (3602879701896397 / 36028797018963968))"
  by code_simp

lemma materialsCost_rounds:
  "materialsCost
     [\<lparr> InventoryItem.id' = ''A'', InventoryItem.name = ''Cinta'',
        InventoryItem.description = [], InventoryItem.quantity = 10,
        InventoryItem.unitPrice = 3602879701896397 / 36028797018963968 \<rparr>]
     [ex_line ''A'' 3]
     = Fin (5404319552844596 / 18014398509481984)
   \<and> materialsCost
     [\<lparr> InventoryItem.id' = ''A'', InventoryItem.name = ''Cinta'',
        InventoryItem.description = [], InventoryItem.quantity = 10,
        InventoryItem.unitPrice = 3602879701896397 / 36028797018963968 \<rparr>]
     [ex_line ''A'' 3]
     \<noteq> Fin (3602879701896397 / 36028797018963968 * 3)"
  by code_simp

subsection \<open>The invoice form with the date derivation as a parameter\<close>

lemma handleSubmit_eq_with:
  "handleSubmit tza clients invoice formData
     = handleSubmit_with (derive_nextMaintenanceDate tza) clients invoice formData"
  by (simp add: handleSubmit_def handleSubmit_with_def)

lemma handleSubmit_with_Inr:
  assumes "handleSubmit_with deriveDate clients invoice formData = Inr saved"
  obtains client nmd where
    "find (\<lambda>c. Client.id' c = clientId formData) clients = Some client"
    "saved = formData\<lparr> nextMaintenanceDate := nmd,
                       notes' := Some (derive_notes client formData),
                       Invoice.id' := (case invoice of None \<Rightarrow> [] | Some i \<Rightarrow> Invoice.id' i),
                       invoiceNumber := (case invoice of None \<Rightarrow> [] | Some i \<Rightarrow> invoiceNumber i) \<rparr>"
  using assms by (auto simp: handleSubmit_with_def split: option.splits sum.splits)

lemma fixed_texts:
  "warrantyText = ''Garant'' @ [CHR 0xED] @ ''a de un a'' @ [CHR 0xF1] @ ''o. La garant''
     @ [CHR 0xED] @ ''a solo cubre da'' @ [CHR 0xF1]
     @ ''os por naturaleza del equipo, no provocados por cortocircuitos.''"
  "maintenanceText (if type' client = Comercial then 3 else 6)
     = ''Recomendaci'' @ [CHR 0xF3] @ ''n: Realizar el primer mantenimiento preventivo en ''
       @ (if type' client = Comercial then ''3'' else ''6'')
       @ '' meses para asegurar el '' @ [CHR 0xF3]
       @ ''ptimo funcionamiento y la validez de la garant'' @ [CHR 0xED] @ ''a.''"
  "blank_line = [CHR 0x0A, CHR 0x0A]"
proof -
  have d: "digit_char 3 = CHR ''3''" "digit_char 6 = CHR ''6''" by code_simp+
  show "warrantyText = ''Garant'' @ [CHR 0xED] @ ''a de un a'' @ [CHR 0xF1] @ ''o. La garant''
     @ [CHR 0xED] @ ''a solo cubre da'' @ [CHR 0xF1]
     @ ''os por naturaleza del equipo, no provocados por cortocircuitos.''"
    by (simp add: warrantyText_def)
  show "maintenanceText (if type' client = Comercial then 3 else 6)
     = ''Recomendaci'' @ [CHR 0xF3] @ ''n: Realizar el primer mantenimiento preventivo en ''
       @ (if type' client = Comercial then ''3'' else ''6'')
       @ '' meses para asegurar el '' @ [CHR 0xF3]
       @ ''ptimo funcionamiento y la validez de la garant'' @ [CHR 0xED] @ ''a.''"
    by (simp add: maintenanceText_def toString_nat_1 d)
  show "blank_line = [CHR 0x0A, CHR 0x0A]"
    by (simp add: blank_line_def)
qed


section \<open>Claims\<close>

text \<open>
  C2. Saving a draft whose client resolves, whatever the date derivation returns: with
  \<open>old\<close> the notes of the draft, the saved notes are \<open>old @ w @ r\<close>, so the user's
  text stays as a prefix. If an item has \<open>isNewEquipment = true\<close>, then \<open>w\<close> is
  the warranty sentence \<open>W\<close> unless \<open>old\<close> contains it, and \<open>r\<close>, after it, is the
  recommendation \<open>M\<close>, which names 3 months for a Comercial client and 6 otherwise,
  unless the notes so far contain it; a sentence that is added follows two line feeds
  when text precedes it; the saved notes contain both sentences. Without such an item
  nothing is added. Saving the saved invoice again leaves the notes as they are, and
  where the date derivation of the source has saved it, saving it again returns it
  unchanged.
\<close>

theorem notes_injection:
  assumes "find (\<lambda>c. Client.id' c = clientId formData) clients = Some client"
    and "handleSubmit_with deriveDate clients invoice formData = Inr saved"
    and "old = (case notes' formData of None \<Rightarrow> [] | Some n \<Rightarrow> n)"
    and "hasNew = list_ex (\<lambda>item. isNewEquipment item = Some True) (Invoice.items formData)"
    and "sep = [CHR 0x0A, CHR 0x0A]"
    and "W = ''Garant'' @ [CHR 0xED] @ ''a de un a'' @ [CHR 0xF1] @ ''o. La garant''
              @ [CHR 0xED] @ ''a solo cubre da'' @ [CHR 0xF1]
              @ ''os por naturaleza del equipo, no provocados por cortocircuitos.''"
    and "M = ''Recomendaci'' @ [CHR 0xF3]
              @ ''n: Realizar el primer mantenimiento preventivo en ''
              @ (if type' client = Comercial then ''3'' else ''6'')
              @ '' meses para asegurar el '' @ [CHR 0xF3]
              @ ''ptimo funcionamiento y la validez de la garant'' @ [CHR 0xED] @ ''a.''"
  shows "(\<exists>w r. notes' saved = Some (old @ w @ r)
            \<and> w = (if hasNew \<and> \<not> (\<exists>a b. old = a @ W @ b)
                   then (if old = [] then [] else sep) @ W else [])
            \<and> r = (if hasNew \<and> \<not> (\<exists>a b. old @ w = a @ M @ b)
                   then (if old @ w = [] then [] else sep) @ M else [])
            \<and> (if hasNew
                then (\<exists>a b. old @ w @ r = a @ W @ b) \<and> (\<exists>a b. old @ w @ r = a @ M @ b)
                else w = [] \<and> r = []))
       \<and> (\<forall>deriveDate' invoice' saved'.
             handleSubmit_with deriveDate' clients invoice' saved = Inr saved'
             \<longrightarrow> notes' saved' = notes' saved)
       \<and> handleSubmit tza clients invoice formData
           = handleSubmit_with (derive_nextMaintenanceDate tza) clients invoice formData
       \<and> (handleSubmit tza clients invoice formData = Inr saved
            \<longrightarrow> handleSubmit tza clients (Some saved) saved = Inr saved)"
proof -
  from assms(2) obtain client' nmd where
    c: "find (\<lambda>c. Client.id' c = clientId formData) clients = Some client'"
    and s: "saved = formData\<lparr> nextMaintenanceDate := nmd,
                       notes' := Some (derive_notes client' formData),
                       Invoice.id' := (case invoice of None \<Rightarrow> [] | Some i \<Rightarrow> Invoice.id' i),
                       invoiceNumber := (case invoice of None \<Rightarrow> [] | Some i \<Rightarrow> invoiceNumber i) \<rparr>"
    by (rule handleSubmit_with_Inr)
  from c assms(1) have cc: "client' = client" by simp
  with s have n: "notes' saved = Some (derive_notes client formData)" by simp
  have hn: "hasNew = list_ex (\<lambda>item. truthy (isNewEquipment item)) (Invoice.items formData)"
    unfolding assms(4) by (simp add: truthy_def)
  have W: "W = warrantyText" unfolding assms(6) fixed_texts(1) ..
  have M: "M = maintenanceText (if type' client = Comercial then 3 else 6)"
    unfolding assms(7) fixed_texts(2) ..
  have sep: "sep = blank_line" unfolding assms(5) fixed_texts(3) ..
  define w where "w = (if hasNew \<and> \<not> (\<exists>a b. old = a @ W @ b)
                   then (if old = [] then [] else sep) @ W else [])"
  define r where "r = (if hasNew \<and> \<not> (\<exists>a b. old @ w = a @ M @ b)
                   then (if old @ w = [] then [] else sep) @ M else [])"
  have w': "w = (if hasNew \<and> \<not> includes_str old warrantyText
              then (if old = [] then [] else blank_line) @ warrantyText else [])"
    unfolding w_def W sep includes_str_iff ..
  have r': "r = (if hasNew \<and> \<not> includes_str (old @ w)
                    (maintenanceText (if type' client = Comercial then 3 else 6))
              then (if old @ w = [] then [] else blank_line)
                   @ maintenanceText (if type' client = Comercial then 3 else 6) else [])"
    unfolding r_def M sep includes_str_iff ..
  have shape: "derive_notes client formData = old @ w @ r"
    using assms(3) hn refl w' r' by (rule derive_notes_shape)
  have saved_notes: "notes' saved = Some (old @ w @ r)"
    using n shape by simp
  have cont: "if hasNew
              then (\<exists>a b. old @ w @ r = a @ W @ b) \<and> (\<exists>a b. old @ w @ r = a @ M @ b)
              else w = [] \<and> r = []"
  proof (cases hasNew)
    case True
    then show ?thesis
      using derive_notes_contains [of formData "if type' client = Comercial then 3 else 6" client]
        hn shape
      unfolding W M includes_str_iff by simp
  next
    case False
    then show ?thesis by (simp add: w_def r_def)
  qed
  have again: "notes' saved' = notes' saved"
    if "handleSubmit_with deriveDate' clients invoice' saved = Inr saved'"
    for deriveDate' invoice' saved'
  proof -
    from that obtain client2 nmd2 where
      c2: "find (\<lambda>c. Client.id' c = clientId saved) clients = Some client2"
      and s2: "saved' = saved\<lparr> nextMaintenanceDate := nmd2,
                       notes' := Some (derive_notes client2 saved),
                       Invoice.id' := (case invoice' of None \<Rightarrow> [] | Some i \<Rightarrow> Invoice.id' i),
                       invoiceNumber := (case invoice' of None \<Rightarrow> [] | Some i \<Rightarrow> invoiceNumber i) \<rparr>"
      by (rule handleSubmit_with_Inr)
    have "clientId saved = clientId formData" using s by simp
    with c2 assms(1) have "client2 = client" by simp
    moreover have "derive_notes client saved = derive_notes client formData"
      using s cc by (intro derive_notes_idem) simp_all
    ultimately show ?thesis using s2 n by simp
  qed
  have resave: "handleSubmit tza clients (Some saved) saved = Inr saved"
    if "handleSubmit tza clients invoice formData = Inr saved"
    using that by (rule handleSubmit_resave)
  show ?thesis
  proof (intro conjI allI impI)
    show "\<exists>w r. notes' saved = Some (old @ w @ r)
            \<and> w = (if hasNew \<and> \<not> (\<exists>a b. old = a @ W @ b)
                   then (if old = [] then [] else sep) @ W else [])
            \<and> r = (if hasNew \<and> \<not> (\<exists>a b. old @ w = a @ M @ b)
                   then (if old @ w = [] then [] else sep) @ M else [])
            \<and> (if hasNew
                then (\<exists>a b. old @ w @ r = a @ W @ b) \<and> (\<exists>a b. old @ w @ r = a @ M @ b)
                else w = [] \<and> r = [])"
      by (rule exI [of _ w], rule exI [of _ r], intro conjI)
        (rule saved_notes, rule w_def, rule r_def, rule cont)
  next
    fix deriveDate' invoice' saved'
    assume "handleSubmit_with deriveDate' clients invoice' saved = Inr saved'"
    then show "notes' saved' = notes' saved" by (rule again)
  next
    show "handleSubmit tza clients invoice formData
           = handleSubmit_with (derive_nextMaintenanceDate tza) clients invoice formData"
      by (rule handleSubmit_eq_with)
  next
    assume "handleSubmit tza clients invoice formData = Inr saved"
    then show "handleSubmit tza clients (Some saved) saved = Inr saved" by (rule resave)
  qed
qed

theorem notes_injection_witness:
  "(\<exists>saved. handleSubmit_with (derive_nextMaintenanceDate 0) [ex_client Comercial] None
                 (ex_draft ''2024-03-01'' [ex_item False True 1 100] Borrador ''Gracias'')
               = Inr saved
        \<and> notes' saved
            = Some (''Gracias'' @ [CHR 0x0A, CHR 0x0A]
                    @ ''Garant'' @ [CHR 0xED] @ ''a de un a'' @ [CHR 0xF1] @ ''o. La garant''
                    @ [CHR 0xED] @ ''a solo cubre da'' @ [CHR 0xF1]
                    @ ''os por naturaleza del equipo, no provocados por cortocircuitos.''
                    @ [CHR 0x0A, CHR 0x0A]
                    @ ''Recomendaci'' @ [CHR 0xF3]
                    @ ''n: Realizar el primer mantenimiento preventivo en 3''
                    @ '' meses para asegurar el '' @ [CHR 0xF3]
                    @ ''ptimo funcionamiento y la validez de la garant'' @ [CHR 0xED] @ ''a.'')
        \<and> handleSubmit 0 [ex_client Comercial] (Some saved) saved = Inr saved)
   \<and> (\<exists>saved. handleSubmit_with (\<lambda>formData. Inr (Some ''+012024-09-01''))
                 [ex_client Residencial] None
                 (ex_draft ''12024-03-01'' [ex_item True True 1 100] Borrador [])
               = Inr saved
        \<and> notes' saved
            = Some (''Garant'' @ [CHR 0xED] @ ''a de un a'' @ [CHR 0xF1] @ ''o. La garant''
                    @ [CHR 0xED] @ ''a solo cubre da'' @ [CHR 0xF1]
                    @ ''os por naturaleza del equipo, no provocados por cortocircuitos.''
                    @ [CHR 0x0A, CHR 0x0A]
                    @ ''Recomendaci'' @ [CHR 0xF3]
                    @ ''n: Realizar el primer mantenimiento preventivo en 6''
                    @ '' meses para asegurar el '' @ [CHR 0xF3]
                    @ ''ptimo funcionamiento y la validez de la garant'' @ [CHR 0xED] @ ''a.''))"
proof -
  have A: "\<exists>saved. handleSubmit_with (derive_nextMaintenanceDate 0) [ex_client Comercial] None
                 (ex_draft ''2024-03-01'' [ex_item False True 1 100] Borrador ''Gracias'')
               = Inr saved
        \<and> notes' saved
            = Some (''Gracias'' @ [CHR 0x0A, CHR 0x0A]
                    @ (''Garant'' @ [CHR 0xED] @ ''a de un a'' @ [CHR 0xF1] @ ''o. La garant''
                    @ [CHR 0xED] @ ''a solo cubre da'' @ [CHR 0xF1]
                    @ ''os por naturaleza del equipo, no provocados por cortocircuitos.'')
                    @ [CHR 0x0A, CHR 0x0A]
                    @ ''Recomendaci'' @ [CHR 0xF3]
                    @ ''n: Realizar el primer mantenimiento preventivo en 3''
                    @ '' meses para asegurar el '' @ [CHR 0xF3]
                    @ ''ptimo funcionamiento y la validez de la garant'' @ [CHR 0xED] @ ''a.'')
        \<and> handleSubmit 0 [ex_client Comercial] (Some saved) saved = Inr saved"
  proof -
  let ?d = "ex_draft ''2024-03-01'' [ex_item False True 1 100] Borrador ''Gracias''"
  let ?c = "ex_client Comercial"
  let ?W = "''Garant'' @ [CHR 0xED] @ ''a de un a'' @ [CHR 0xF1] @ ''o. La garant''
              @ [CHR 0xED] @ ''a solo cubre da'' @ [CHR 0xF1]
              @ ''os por naturaleza del equipo, no provocados por cortocircuitos.''"
  have h1: "find (\<lambda>c. Client.id' c = clientId ?d) [?c] = Some ?c"
    by (simp add: ex_draft_def ex_client_def)
  have nm: "derive_nextMaintenanceDate 0 ?d = Inr None"
    by (simp add: derive_nextMaintenanceDate_def ex_draft_def ex_item_def truthy_def)
  obtain saved where h2: "handleSubmit_with (derive_nextMaintenanceDate 0) [?c] None ?d = Inr saved"
    using h1 nm by (simp add: handleSubmit_with_def)
  have facts: "notes' ?d = Some ''Gracias''" "type' ?c = Comercial"
    "list_ex (\<lambda>item. isNewEquipment item = Some True) (Invoice.items ?d)"
    by (simp_all add: ex_draft_def ex_client_def ex_item_def)
  have w: "\<not> (\<exists>a b. ''Gracias'' = a @ ?W @ b)"
    unfolding includes_str_iff [symmetric] by simp
  have r: "\<not> (\<exists>a b. ''Gracias'' @ [CHR 0x0A, CHR 0x0A] @ ?W
              = a @ (''Recomendaci'' @ [CHR 0xF3]
              @ ''n: Realizar el primer mantenimiento preventivo en ''
              @ ''3''
              @ '' meses para asegurar el '' @ [CHR 0xF3]
              @ ''ptimo funcionamiento y la validez de la garant'' @ [CHR 0xED] @ ''a.'') @ b)"
    unfolding includes_str_iff [symmetric] by simp
  from notes_injection [OF h1 h2 refl refl refl refl refl, of 0]
  have n: "notes' saved
            = Some (''Gracias'' @ [CHR 0x0A, CHR 0x0A] @ ?W
                    @ [CHR 0x0A, CHR 0x0A]
                    @ ''Recomendaci'' @ [CHR 0xF3]
                    @ ''n: Realizar el primer mantenimiento preventivo en 3''
                    @ '' meses para asegurar el '' @ [CHR 0xF3]
                    @ ''ptimo funcionamiento y la validez de la garant'' @ [CHR 0xED] @ ''a.'')"
    and again: "handleSubmit 0 [?c] None ?d = Inr saved
                \<longrightarrow> handleSubmit 0 [?c] (Some saved) saved = Inr saved"
    using facts w r by auto
  have "handleSubmit 0 [?c] None ?d = Inr saved"
    using h2 by (simp add: handleSubmit_eq_with)
  with again have "handleSubmit 0 [?c] (Some saved) saved = Inr saved" by simp
  with h2 n show ?thesis
    by blast
  qed
  have B: "\<exists>saved. handleSubmit_with (\<lambda>formData. Inr (Some ''+012024-09-01''))
                 [ex_client Residencial] None
                 (ex_draft ''12024-03-01'' [ex_item True True 1 100] Borrador [])
               = Inr saved
        \<and> notes' saved
            = Some ((''Garant'' @ [CHR 0xED] @ ''a de un a'' @ [CHR 0xF1] @ ''o. La garant''
                    @ [CHR 0xED] @ ''a solo cubre da'' @ [CHR 0xF1]
                    @ ''os por naturaleza del equipo, no provocados por cortocircuitos.'')
                    @ [CHR 0x0A, CHR 0x0A]
                    @ ''Recomendaci'' @ [CHR 0xF3]
                    @ ''n: Realizar el primer mantenimiento preventivo en 6''
                    @ '' meses para asegurar el '' @ [CHR 0xF3]
                    @ ''ptimo funcionamiento y la validez de la garant'' @ [CHR 0xED] @ ''a.'')"
  proof -
  let ?d = "ex_draft ''12024-03-01'' [ex_item True True 1 100] Borrador []"
  let ?c = "ex_client Residencial"
  let ?D = "\<lambda>formData :: Invoice. Inr (Some ''+012024-09-01'') :: SubmitError + string option"
  let ?W = "''Garant'' @ [CHR 0xED] @ ''a de un a'' @ [CHR 0xF1] @ ''o. La garant''
              @ [CHR 0xED] @ ''a solo cubre da'' @ [CHR 0xF1]
              @ ''os por naturaleza del equipo, no provocados por cortocircuitos.''"
  have h1: "find (\<lambda>c. Client.id' c = clientId ?d) [?c] = Some ?c"
    by (simp add: ex_draft_def ex_client_def)
  obtain saved where h2: "handleSubmit_with ?D [?c] None ?d = Inr saved"
    using h1 by (simp add: handleSubmit_with_def)
  have facts: "notes' ?d = Some []" "type' ?c \<noteq> Comercial"
    "list_ex (\<lambda>item. isNewEquipment item = Some True) (Invoice.items ?d)"
    by (simp_all add: ex_draft_def ex_client_def ex_item_def)
  have w: "\<not> (\<exists>a b. [] = a @ ?W @ b)" by simp
  have r: "\<not> (\<exists>a b. ?W
              = a @ (''Recomendaci'' @ [CHR 0xF3]
              @ ''n: Realizar el primer mantenimiento preventivo en ''
              @ ''6''
              @ '' meses para asegurar el '' @ [CHR 0xF3]
              @ ''ptimo funcionamiento y la validez de la garant'' @ [CHR 0xED] @ ''a.'') @ b)"
    unfolding includes_str_iff [symmetric] by simp
  from notes_injection [OF h1 h2 refl refl refl refl refl, of 0]
  have n: "notes' saved
            = Some (?W @ [CHR 0x0A, CHR 0x0A]
                    @ ''Recomendaci'' @ [CHR 0xF3]
                    @ ''n: Realizar el primer mantenimiento preventivo en 6''
                    @ '' meses para asegurar el '' @ [CHR 0xF3]
                    @ ''ptimo funcionamiento y la validez de la garant'' @ [CHR 0xED] @ ''a.'')"
    using facts w r by auto
  with h2 show ?thesis
    by blast
  qed
  show ?thesis using A B by simp
qed





text \<open>
  C7. Editing quantities of a bill of materials: setting the quantity 0 leaves exactly
  the lines of the other inventory items; setting a quantity for an inventory item that
  has no line appends a line only if the quantity is positive; so from a bill of
  materials with one line per inventory item and positive quantities (the empty one of
  a new service, or a stored one) every sequence of edits leads to a bill of materials
  with at most one line per inventory item and no zero quantity.
\<close>

theorem bill_of_materials_edits:
  assumes "distinct (map inventoryItemId (Service.items formData))"
    and "\<forall>i\<in>set (Service.items formData). ServiceItem.quantity i > 0"
    and "after = foldl (\<lambda>fd (itemId, qty). handleItemQuantityChange fd itemId qty) formData edits"
  shows "Service.items (handleItemQuantityChange formData itemId 0)
           = filter (\<lambda>i. inventoryItemId i \<noteq> itemId) (Service.items formData)
       \<and> (itemId \<notin> inventoryItemId ` set (Service.items formData) \<longrightarrow>
            Service.items (handleItemQuantityChange formData itemId qty)
              = (if qty > 0
                 then Service.items formData
                      @ [\<lparr> inventoryItemId = itemId, ServiceItem.quantity = qty \<rparr>]
                 else Service.items formData))
       \<and> distinct (map inventoryItemId (Service.items after))
       \<and> (\<forall>i\<in>set (Service.items after). ServiceItem.quantity i \<noteq> 0 \<and> ServiceItem.quantity i > 0)"
  using quantity_zero_removes [of formData itemId] quantity_new_line [of itemId formData qty]
    edits_keep_invariant [OF assms(1,2), of edits] assms(3)
  by auto

theorem bill_of_materials_edits_witness:
  "distinct (map inventoryItemId (Service.items (ex_service ''Kit'' [ex_line ''A'' 2] 0)))
   \<and> list_all (\<lambda>i. ServiceItem.quantity i > 0) (Service.items (ex_service ''Kit'' [ex_line ''A'' 2] 0))
   \<and> Service.items (handleItemQuantityChange (ex_service ''Kit'' [ex_line ''A'' 2] 0) ''A'' 0) = []
   \<and> Service.items (handleItemQuantityChange (ex_service ''Kit'' [ex_line ''A'' 2] 0) ''B'' 0)
        = [ex_line ''A'' 2]
   \<and> Service.items (foldl (\<lambda>fd (itemId, qty). handleItemQuantityChange fd itemId qty)
        (ex_service ''Kit'' [ex_line ''A'' 2] 0)
        [(''B'', 0), (''B'', 3), (''A'', 5), (''C'', 1), (''B'', 0)])
      = [ex_line ''A'' 5, ex_line ''C'' 1]
   \<and> distinct (map inventoryItemId (Service.items
        (foldl (\<lambda>fd (itemId, qty). handleItemQuantityChange fd itemId qty)
           (ex_service ''Kit'' [ex_line ''A'' 2] 0)
           [(''B'', 0), (''B'', 3), (''A'', 5), (''C'', 1), (''B'', 0)])))"
proof -
  let ?fd = "ex_service ''Kit'' [ex_line ''A'' 2] 0"
  let ?edits = "[(''B'', 0), (''B'', 3), (''A'', 5), (''C'', 1), (''B'', 0 :: real)]"
  have h1: "distinct (map inventoryItemId (Service.items ?fd))"
    and h2: "\<forall>i\<in>set (Service.items ?fd). ServiceItem.quantity i > 0"
    by (simp_all add: ex_service_def ex_line_def)
  have h3: "''B'' \<notin> inventoryItemId ` set (Service.items ?fd)"
    by (simp add: ex_service_def ex_line_def)
  have run: "Service.items (foldl (\<lambda>fd (itemId, qty). handleItemQuantityChange fd itemId qty)
        ?fd ?edits) = [ex_line ''A'' 5, ex_line ''C'' 1]"
    by (simp add: ex_service_def ex_line_def handleItemQuantityChange_def)
  from bill_of_materials_edits [OF h1 h2 refl, of "''A''" 0 ?edits]
    bill_of_materials_edits [OF h1 h2 refl, of "''B''" 0 ?edits]
    h1 h2 h3 run
  show ?thesis by (simp add: ex_service_def ex_line_def)
qed

text \<open>
  C8. If the client of the draft is not in the client collection, submitting shows the
  message and stops: \<open>onSave\<close> is not called, so nothing is derived and the invoice
  collection stays as it was. The items are not validated: whenever the draft is
  saved its items are saved as they are, and a draft with a client and no maintenance
  item is always saved, whatever its quantities and prices.
\<close>

theorem unresolved_client_aborts:
  "(find (\<lambda>c. Client.id' c = clientId formData) clients = None \<longrightarrow>
      handleSubmit tza clients selectedInvoice formData
        = Inl (Alert ''Por favor, seleccione un cliente.'')
      \<and> submitInvoiceForm tza newId clients invoices selectedInvoice formData
        = (Some (Alert ''Por favor, seleccione un cliente.''), invoices))
   \<and> (handleSubmit tza clients selectedInvoice formData = Inr saved \<longrightarrow>
        Invoice.items saved = Invoice.items formData)
   \<and> (find (\<lambda>c. Client.id' c = clientId formData) clients \<noteq> None
        \<and> \<not> list_ex (\<lambda>item. truthy (isMaintenance item)) (Invoice.items formData) \<longrightarrow>
        (\<exists>saved'. handleSubmit tza clients selectedInvoice formData = Inr saved'
            \<and> Invoice.items saved' = Invoice.items formData))"
proof (intro conjI impI)
  assume "find (\<lambda>c. Client.id' c = clientId formData) clients = None"
  then have a: "handleSubmit tza clients selectedInvoice formData
                  = Inl (Alert ''Por favor, seleccione un cliente.'')"
    by (rule handleSubmit_unresolved)
  then show "handleSubmit tza clients selectedInvoice formData
               = Inl (Alert ''Por favor, seleccione un cliente.'')" .
  from a show "submitInvoiceForm tza newId clients invoices selectedInvoice formData
        = (Some (Alert ''Por favor, seleccione un cliente.''), invoices)"
    by (simp add: submitInvoiceForm_def)
next
  assume "handleSubmit tza clients selectedInvoice formData = Inr saved"
  then show "Invoice.items saved = Invoice.items formData"
    by (simp add: handleSubmit_items)
next
  assume a: "find (\<lambda>c. Client.id' c = clientId formData) clients \<noteq> None
        \<and> \<not> list_ex (\<lambda>item. truthy (isMaintenance item)) (Invoice.items formData)"
  then obtain client where "find (\<lambda>c. Client.id' c = clientId formData) clients = Some client"
    by auto
  with a obtain saved' where s: "handleSubmit tza clients selectedInvoice formData = Inr saved'"
    using handleSubmit_no_maintenance [of formData clients client tza selectedInvoice] by auto
  then have "Invoice.items saved' = Invoice.items formData"
    by (simp add: handleSubmit_items)
  with s show "\<exists>saved'. handleSubmit tza clients selectedInvoice formData = Inr saved'
            \<and> Invoice.items saved' = Invoice.items formData" by blast
qed

theorem unresolved_client_aborts_witness:
  "find (\<lambda>c. Client.id' c = clientId (ex_draft ''2024-03-01'' [ex_item False True (- 2) (- 100)] Borrador ''Gracias''))
      [ex_client Residencial\<lparr> Client.id' := ''c9'' \<rparr>] = None
   \<and> submitInvoiceForm 0 ''n1'' [ex_client Residencial\<lparr> Client.id' := ''c9'' \<rparr>]
        [ex_draft ''2024-01-10'' [] Pagada []] None
        (ex_draft ''2024-03-01'' [ex_item False True (- 2) (- 100)] Borrador ''Gracias'')
      = (Some (Alert ''Por favor, seleccione un cliente.''), [ex_draft ''2024-01-10'' [] Pagada []])
   \<and> (\<exists>saved. handleSubmit 0 [ex_client Residencial] None
                 (ex_draft ''2024-03-01'' [ex_item False True (- 2) (- 100)] Borrador ''Gracias'')
               = Inr saved
        \<and> Invoice.items saved = [ex_item False True (- 2) (- 100)])"
proof -
  let ?d = "ex_draft ''2024-03-01'' [ex_item False True (- 2) (- 100)] Borrador ''Gracias''"
  let ?other = "[ex_client Residencial\<lparr> Client.id' := ''c9'' \<rparr>]"
  have h1: "find (\<lambda>c. Client.id' c = clientId ?d) ?other = None"
    by (simp add: ex_draft_def ex_client_def)
  have h2: "find (\<lambda>c. Client.id' c = clientId ?d) [ex_client Residencial] \<noteq> None
        \<and> \<not> list_ex (\<lambda>item. truthy (isMaintenance item)) (Invoice.items ?d)"
    by (simp add: ex_draft_def ex_client_def ex_item_def truthy_def)
  have i: "Invoice.items ?d = [ex_item False True (- 2) (- 100)]"
    by (simp add: ex_draft_def)
  from unresolved_client_aborts [of ?d ?other 0 None "''n1''" "[ex_draft ''2024-01-10'' [] Pagada []]"]
    unresolved_client_aborts [of ?d "[ex_client Residencial]" 0 None]
    h1 h2 i
  show ?thesis by simp
qed

text \<open>
  C9. Creating an invoice appends it with the number \<open>INV-\<close> followed by the size of
  the collection plus one, padded with zeros to four digits (the four decimal digits
  of that number while it is below 10000); on an empty collection that is
  \<open>INV-0001\<close>. Editing keeps the number: the invoice the form saves carries the number
  of the invoice being edited, the entries with its identity get that number and the
  others keep theirs, so when it is in the collection and identities are distinct no
  number changes.
\<close>

theorem invoice_numbering:
  "handleSaveInvoice newId invoices None invoice
     = invoices @ [invoice\<lparr> Invoice.id' := newId,
                             invoiceNumber := ''INV-'' @ padStart 4 (CHR ''0'')
                                                (toString_nat (length invoices + 1)) \<rparr>]
   \<and> (length invoices + 1 < 10000 \<longrightarrow>
        padStart 4 (CHR ''0'') (toString_nat (length invoices + 1))
          = [digit_char ((length invoices + 1) div 1000),
             digit_char ((length invoices + 1) div 100 mod 10),
             digit_char ((length invoices + 1) div 10 mod 10),
             digit_char ((length invoices + 1) mod 10)])
   \<and> handleSaveInvoice newId [] None invoice
       = [invoice\<lparr> Invoice.id' := newId, invoiceNumber := ''INV-0001'' \<rparr>]
   \<and> (handleSubmit tza clients (Some sel) formData = Inr saved \<longrightarrow>
        invoiceNumber saved = invoiceNumber sel
        \<and> map invoiceNumber (handleSaveInvoice newId invoices (Some sel) saved)
            = map (\<lambda>i. if Invoice.id' i = Invoice.id' sel then invoiceNumber sel
                        else invoiceNumber i) invoices
        \<and> (sel \<in> set invoices \<and> distinct (map Invoice.id' invoices) \<longrightarrow>
             map invoiceNumber (handleSaveInvoice newId invoices (Some sel) saved)
               = map invoiceNumber invoices))"
proof (intro conjI impI)
  show "handleSaveInvoice newId invoices None invoice
     = invoices @ [invoice\<lparr> Invoice.id' := newId,
                             invoiceNumber := ''INV-'' @ padStart 4 (CHR ''0'')
                                                (toString_nat (length invoices + 1)) \<rparr>]"
    by (simp add: handleSaveInvoice_def)
next
  assume "length invoices + 1 < 10000"
  then show "padStart 4 (CHR ''0'') (toString_nat (length invoices + 1))
          = [digit_char ((length invoices + 1) div 1000),
             digit_char ((length invoices + 1) div 100 mod 10),
             digit_char ((length invoices + 1) div 10 mod 10),
             digit_char ((length invoices + 1) mod 10)]"
    by (rule padStart_4_digits)
next
  have "padStart 4 (CHR ''0'') (toString_nat 1) = ''0001''" by code_simp
  then show "handleSaveInvoice newId [] None invoice
       = [invoice\<lparr> Invoice.id' := newId, invoiceNumber := ''INV-0001'' \<rparr>]"
    by (simp add: handleSaveInvoice_def)
next
  assume a: "handleSubmit tza clients (Some sel) formData = Inr saved"
  then show n: "invoiceNumber saved = invoiceNumber sel"
    by (simp add: handleSubmit_edit_keeps_number)
  from a have i: "Invoice.id' saved = Invoice.id' sel"
    by (simp add: handleSubmit_edit_keeps_number)
  from n i show m: "map invoiceNumber (handleSaveInvoice newId invoices (Some sel) saved)
            = map (\<lambda>i. if Invoice.id' i = Invoice.id' sel then invoiceNumber sel
                        else invoiceNumber i) invoices"
    by (rule handleSaveInvoice_edit_numbers)
  assume "sel \<in> set invoices \<and> distinct (map Invoice.id' invoices)"
  then show "map invoiceNumber (handleSaveInvoice newId invoices (Some sel) saved)
               = map invoiceNumber invoices"
    using m distinct_ids_numbers [of sel invoices] by simp
qed

theorem invoice_numbering_witness:
  "length [ex_stored ''a'' ''INV-0001'', ex_stored ''b'' ''INV-0002''] + 1 < (10000 :: nat)
   \<and> map invoiceNumber (handleSaveInvoice ''n1''
        [ex_stored ''a'' ''INV-0001'', ex_stored ''b'' ''INV-0002''] None
        (ex_draft ''2024-03-01'' [] Borrador []))
      = [''INV-0001'', ''INV-0002'', ''INV-0003'']
   \<and> (\<exists>saved. handleSubmit 0 [ex_client Residencial] (Some (ex_stored ''b'' ''INV-0002''))
                 ((ex_stored ''b'' ''INV-0002'')\<lparr> status := Enviada \<rparr>) = Inr saved
        \<and> status saved = Enviada
        \<and> map invoiceNumber (handleSaveInvoice ''n1''
             [ex_stored ''a'' ''INV-0001'', ex_stored ''b'' ''INV-0002'']
             (Some (ex_stored ''b'' ''INV-0002'')) saved)
           = [''INV-0001'', ''INV-0002''])"
proof -
  let ?invs = "[ex_stored ''a'' ''INV-0001'', ex_stored ''b'' ''INV-0002'']"
  let ?sel = "ex_stored ''b'' ''INV-0002''"
  let ?fd = "?sel\<lparr> status := Enviada \<rparr>"
  have h1: "length ?invs + 1 < (10000 :: nat)" by simp
  have d: "digit_char 0 = CHR ''0''" "digit_char 3 = CHR ''3''" by code_simp+
  obtain saved where h2: "handleSubmit 0 [ex_client Residencial] (Some ?sel) ?fd = Inr saved"
    by (simp add: handleSubmit_def derive_nextMaintenanceDate_def ex_stored_def ex_draft_def
        ex_client_def ex_item_def truthy_def)
  have st: "status saved = Enviada"
    using h2 handleSubmit_items [of 0 "[ex_client Residencial]" "Some ?sel" ?fd saved]
    by simp
  have h3: "?sel \<in> set ?invs \<and> distinct (map Invoice.id' ?invs)"
    by (simp add: ex_stored_def)
  from invoice_numbering [of "''n1''" ?invs "ex_draft ''2024-03-01'' [] Borrador []" 0
      "[ex_client Residencial]" ?sel ?fd saved] h1 h2 h3 st d
  show ?thesis by (auto simp: ex_stored_def)
qed

text \<open>
  C10. Adding a stored service to an invoice appends one item with quantity 1, the
  service's \<open>totalPrice\<close> as unit price, its name as description,
  \<open>isNewEquipment = false\<close>, and \<open>isMaintenance\<close> true exactly when the name has a
  contiguous part that matches \<open>mantenimiento\<close> letter by letter, each letter in lower
  or upper case.
\<close>

theorem service_line_item:
  "\<exists>newItem.
     handleAddService newId formData service
       = formData\<lparr> Invoice.items := Invoice.items formData @ [newItem] \<rparr>
     \<and> InvoiceItem.id' newItem = newId
     \<and> InvoiceItem.description newItem = Service.name service
     \<and> InvoiceItem.quantity newItem = 1
     \<and> InvoiceItem.unitPrice newItem = Service.totalPrice service
     \<and> isNewEquipment newItem = Some False
     \<and> isMaintenance newItem
         = Some (\<exists>pre mid post. Service.name service = pre @ mid @ post
                   \<and> list_all2 (\<lambda>c p. c = p \<or> (of_char c :: nat) + 32 = of_char p)
                        mid ''mantenimiento'')"
  by (rule exI [of _ "\<lparr> InvoiceItem.id' = newId,
        InvoiceItem.description = Service.name service,
        InvoiceItem.quantity = 1,
        InvoiceItem.unitPrice = Service.totalPrice service,
        isMaintenance =
          Some (includes_str (toLowerCase (Service.name service)) ''mantenimiento''),
        isNewEquipment = Some False \<rparr>"])
    (simp add: handleAddService_def toLowerCase_def includes_str_map lower_match_mantenimiento)

theorem service_line_item_witness:
  "(\<exists>pre mid post. ''Servicio de MANTENIMIENTO Preventivo'' = pre @ mid @ post
       \<and> list_all2 (\<lambda>c p. c = p \<or> (of_char c :: nat) + 32 = of_char p) mid ''mantenimiento'')
   \<and> Invoice.items (handleAddService ''n1'' (ex_draft ''2024-03-01'' [] Borrador [])
        ((ex_service ''Servicio de MANTENIMIENTO Preventivo'' [] 45)\<lparr> totalPrice := 45 \<rparr>))
      = [\<lparr> InvoiceItem.id' = ''n1'',
           InvoiceItem.description = ''Servicio de MANTENIMIENTO Preventivo'',
           InvoiceItem.quantity = 1, InvoiceItem.unitPrice = 45,
           isMaintenance = Some True, isNewEquipment = Some False \<rparr>]"
proof -
  let ?s = "(ex_service ''Servicio de MANTENIMIENTO Preventivo'' [] 45)\<lparr> totalPrice := 45 \<rparr>"
  let ?d = "ex_draft ''2024-03-01'' [] Borrador []"
  have low: "toLowerCase ''Servicio de MANTENIMIENTO Preventivo''
               = ''servicio de mantenimiento preventivo''"
    by code_simp
  have run: "Invoice.items (handleAddService ''n1'' ?d ?s)
      = [\<lparr> InvoiceItem.id' = ''n1'',
           InvoiceItem.description = ''Servicio de MANTENIMIENTO Preventivo'',
           InvoiceItem.quantity = 1, InvoiceItem.unitPrice = 45,
           isMaintenance = Some True, isNewEquipment = Some False \<rparr>]"
    by (simp add: handleAddService_def ex_service_def ex_draft_def low)
  from service_line_item [of "''n1''" ?d ?s] obtain newItem where
    n: "handleAddService ''n1'' ?d ?s = ?d\<lparr> Invoice.items := Invoice.items ?d @ [newItem] \<rparr>"
    and m: "isMaintenance newItem
         = Some (\<exists>pre mid post. Service.name ?s = pre @ mid @ post
                   \<and> list_all2 (\<lambda>c p. c = p \<or> (of_char c :: nat) + 32 = of_char p)
                        mid ''mantenimiento'')"
    by blast
  from n run have "isMaintenance newItem = Some True"
    by (simp add: ex_draft_def)
  with m have "\<exists>pre mid post. Service.name ?s = pre @ mid @ post
                   \<and> list_all2 (\<lambda>c p. c = p \<or> (of_char c :: nat) + 32 = of_char p)
                        mid ''mantenimiento''"
    by simp
  then show ?thesis using run by (simp add: ex_service_def)
qed

text \<open>
  C5. The upcoming maintenance list consists of the clients found for the invoices whose
  \<open>nextMaintenanceDate\<close>, read as a date, is an instant \<open>t\<close> with
  \<open>now \<le> t \<le> now + 15 days\<close> (both bounds included), scanned in the order of the
  invoice collection and keeping the first occurrence of each client (reversing,
  \<^const>\<open>remdups\<close>, which keeps last occurrences, and reversing again); no two entries
  have the same identity.
\<close>

theorem upcomingMaintenance_clients:
  "upcomingMaintenance now invoices clients
     = rev (remdups (rev (List.map_filter
         (\<lambda>invoice. find (\<lambda>c. Client.id' c = clientId invoice) clients)
         (filter (\<lambda>invoice. \<exists>s t. nextMaintenanceDate invoice = Some s \<and> Date_new s = Some t
                                \<and> now \<le> t \<and> t \<le> now + 15 * msPerDay) invoices))))
   \<and> distinct (map Client.id' (upcomingMaintenance now invoices clients))
   \<and> set (upcomingMaintenance now invoices clients)
       = {c. \<exists>invoice \<in> set invoices.
               (\<exists>s t. nextMaintenanceDate invoice = Some s \<and> Date_new s = Some t
                      \<and> now \<le> t \<and> t \<le> now + 15 * msPerDay)
               \<and> find (\<lambda>c. Client.id' c = clientId invoice) clients = Some c}"
proof -
  let ?due = "\<lambda>invoice. \<exists>s t. nextMaintenanceDate invoice = Some s \<and> Date_new s = Some t
                                \<and> now \<le> t \<and> t \<le> now + 15 * msPerDay"
  let ?L = "List.map_filter (\<lambda>invoice. find (\<lambda>c. Client.id' c = clientId invoice) clients)
              (filter ?due invoices)"
  have d: "maintenance_due now = ?due"
    by (rule ext) (rule maintenance_due_iff)
  have 1: "upcomingMaintenance now invoices clients = rev (remdups (rev ?L))"
    unfolding upcomingMaintenance_def map_filter_map d
    by (rule first_occurrences) (rule due_clients_same_id)
  have inj: "inj_on Client.id' (set ?L)"
    by (rule inj_onI) (rule due_clients_same_id)
  have 2: "distinct (map Client.id' (rev (remdups (rev ?L))))"
    using inj by (simp add: distinct_map)
  have 3: "set (rev (remdups (rev ?L)))
       = {c. \<exists>invoice \<in> set invoices. ?due invoice
               \<and> find (\<lambda>c. Client.id' c = clientId invoice) clients = Some c}"
    by (auto simp: set_map_filter)
  from 1 2 3 show ?thesis by simp
qed

theorem upcomingMaintenance_clients_witness:
  "Date_new ''2024-03-01'' = Some 1709251200000
   \<and> Date_new ''2024-03-16'' = Some (1709251200000 + 15 * msPerDay)
   \<and> upcomingMaintenance 1709251200000
        [ex_due ''c2'' ''2024-03-16'', ex_due ''c1'' ''2024-03-01'', ex_due ''c2'' ''2024-03-01'',
         ex_due ''c3'' ''2024-03-05'', ex_due ''c1'' ''2024-03-17'', ex_due ''c1'' ''2024-02-29'']
        [ex_client Residencial, ex_client2]
      = [ex_client2, ex_client Residencial]
   \<and> distinct (map Client.id' (upcomingMaintenance 1709251200000
        [ex_due ''c2'' ''2024-03-16'', ex_due ''c1'' ''2024-03-01'', ex_due ''c2'' ''2024-03-01'',
         ex_due ''c3'' ''2024-03-05'', ex_due ''c1'' ''2024-03-17'', ex_due ''c1'' ''2024-02-29'']
        [ex_client Residencial, ex_client2]))"
proof -
  let ?invs = "[ex_due ''c2'' ''2024-03-16'', ex_due ''c1'' ''2024-03-01'',
         ex_due ''c2'' ''2024-03-01'', ex_due ''c3'' ''2024-03-05'',
         ex_due ''c1'' ''2024-03-17'', ex_due ''c1'' ''2024-02-29'']"
  let ?cls = "[ex_client Residencial, ex_client2]"
  have d1: "Date_new ''2024-03-01'' = Some 1709251200000"
    by code_simp
  have d2: "Date_new ''2024-03-16'' = Some (1709251200000 + 15 * msPerDay)"
    by code_simp
  have run: "upcomingMaintenance 1709251200000 ?invs ?cls = [ex_client2, ex_client Residencial]"
    by code_simp
  from upcomingMaintenance_clients [of 1709251200000 ?invs ?cls]
  have dist: "distinct (map Client.id' (upcomingMaintenance 1709251200000 ?invs ?cls))"
    by (elim conjE)
  show ?thesis
    by (intro conjI) (rule d1, rule d2, rule run, rule dist)
qed

text \<open>
  C1. With a maintenance item the saved \<open>nextMaintenanceDate\<close> should be the issue
  date six calendar months later. The issue date is read as midnight UTC, but the
  month is read and set in local time and the result is written in UTC again: where
  local time is four hours behind UTC, the draft issued on 2024-03-01 is local
  2024-02-29 20:00, six months later local 2024-08-29 20:00, and is saved with
  2024-08-30 instead of 2024-09-01. (Where local time keeps one offset all year, zero
  or ahead of UTC by less than a day, the saved date is the date of day \<open>d\<close> of month
  \<open>mo + 6\<close> of the issue year, as the claim says: lemma
  \<open>nextMaintenanceDate_east_of_utc\<close>. The offset is a constant here: a zone whose
  offset changes between the two dates, by daylight saving, is not covered by that
  lemma. Without a maintenance item the date is cleared at every offset: lemma
  \<open>handleSubmit_no_maintenance\<close>.)
\<close>

theorem nextMaintenanceDate_west_of_utc:
  "handleSubmit (- 14400000) [ex_client Residencial] None
     (ex_draft ''2024-03-01'' [ex_item True False 1 100] Borrador [])
   = Inr ((ex_draft ''2024-03-01'' [ex_item True False 1 100] Borrador [])
            \<lparr> nextMaintenanceDate := Some ''2024-08-30'' \<rparr>)"
  by code_simp

text \<open>
  C4. Monthly income should sum the paid invoices issued in the current month, and
  monthly expenses the expenses dated in it. Dates are read as midnight UTC and their
  month in local time: where local time is four hours behind UTC, on 2024-03-15 the paid
  invoice issued on 2024-03-01 and the expense dated 2024-03-01 count for February, so
  income is 30 instead of 130 and expenses are 7 instead of 47. (The sums themselves, the
  exclusion of other statuses and profit = income - expenses are lemma
  \<open>monthlyData_sums\<close>; where local time keeps one offset, zero or ahead of UTC by
  less than a day, a date counts for its own month: lemma
  \<open>in_current_month_east_of_utc\<close>.)
\<close>

theorem monthlyData_west_of_utc:
  "monthlyData (- 14400000) 1710504000000
     [ex_paid ''2024-03-01'' Pagada 100, ex_paid ''2024-03-10'' Pagada 30]
     [ex_expense ''2024-03-01'' 40, ex_expense ''2024-03-05'' 7]
   = \<lparr> income = 30, totalExpenses = 7 \<rparr>"
  by code_simp

end
